theory Spec2Isabelle
  imports Complex_Main "HOL-Library.Multiset"
begin

section \<open>The micro-batch of \<^verbatim>\<open>scripts/spark_news_consumer.py\<close>\<close>

text \<open>
  A Spark DataFrame is modelled as the list of its rows, a nullable column as an
  \<open>option\<close> (\<open>None\<close> is SQL \<open>null\<close>), a double as the real number it is (the
  arithmetic is exact; the aggregation is also given with the rounding of doubles)
  and a timestamp as an integer instant. An exception is a value: every
  fallible step returns \<open>py_exception + 'a\<close>, with \<open>Inl\<close> the raised exception.
\<close>

subsection \<open>Rows\<close>

text \<open>The schema of \<^verbatim>\<open>start_streaming\<close>: seven columns, each nullable.\<close>

record article =
  title :: "string option"
  description :: "string option"
  source :: "string option"
  url :: "string option"
  published_at :: "int option"
  fetch_timestamp :: "int option"
  company :: "string option"

text \<open>\<^verbatim>\<open>sentiment_df\<close>: the four columns that \<^verbatim>\<open>withColumn\<close> adds.\<close>

record scored = article +
  title_sentiment :: "real option"
  description_sentiment :: "real option"
  overall_sentiment :: "real option"
  sentiment_label :: string

text \<open>An instance of \<^verbatim>\<open>Exception\<close> with its \<^verbatim>\<open>str(e)\<close>.\<close>

datatype py_exception = Exception string

subsection \<open>The sentiment UDF\<close>

text \<open>
  \<^verbatim>\<open>analyze_sentiment(text)['compound']\<close> is VADER's compound score, a library outside
  the repository: it is the parameter \<open>analyze\<close>, which may raise.
\<close>

type_synonym analyzer = "string \<Rightarrow> py_exception + real"

definition get_sentiment :: "analyzer \<Rightarrow> string option \<Rightarrow> py_exception + real option" where
  "get_sentiment analyze text =
     (case text of
        None \<Rightarrow> Inr None
      | Some t \<Rightarrow> (case analyze t of Inl e \<Rightarrow> Inl e | Inr compound \<Rightarrow> Inr (Some compound)))"

subsection \<open>Column expressions\<close>

text \<open>
  Spark SQL's operators on nullable doubles: an arithmetic operator with a null
  operand is null, a division by zero is null, and a comparison with a null operand
  is null (neither true nor false).
\<close>

definition col_add :: "real option \<Rightarrow> real option \<Rightarrow> real option" where
  "col_add a b = (case a of None \<Rightarrow> None | Some x \<Rightarrow> (case b of None \<Rightarrow> None | Some y \<Rightarrow> Some (x + y)))"

definition col_div :: "real option \<Rightarrow> real \<Rightarrow> real option" where
  "col_div a n = (case a of None \<Rightarrow> None | Some x \<Rightarrow> (if n = 0 then None else Some (x / n)))"

definition col_ge :: "real option \<Rightarrow> real \<Rightarrow> bool option" where
  "col_ge a n = (case a of None \<Rightarrow> None | Some x \<Rightarrow> Some (x \<ge> n))"

definition col_le :: "real option \<Rightarrow> real \<Rightarrow> bool option" where
  "col_le a n = (case a of None \<Rightarrow> None | Some x \<Rightarrow> Some (x \<le> n))"

text \<open>
  \<^verbatim>\<open>when(c1, v1).when(c2, v2).otherwise(v3)\<close>: the value of the first branch whose
  condition is true; a null condition does not select its branch.
\<close>

definition when_otherwise :: "(bool option \<times> 'a) list \<Rightarrow> 'a \<Rightarrow> 'a" where
  "when_otherwise branches other =
     (case filter (\<lambda>(c, v). c = Some True) branches of [] \<Rightarrow> other | (c, v) # _ \<Rightarrow> v)"

definition overall_expr :: "real option \<Rightarrow> real option \<Rightarrow> real option" where
  "overall_expr ts ds = col_div (col_add ts ds) 2"

definition label_expr :: "real option \<Rightarrow> string" where
  "label_expr ov =
     when_otherwise [(col_ge ov 0.05, ''positive''), (col_le ov (- 0.05), ''negative'')] ''neutral''"

subsection \<open>Scoring a batch\<close>

definition with_columns :: "article \<Rightarrow> real option \<Rightarrow> real option \<Rightarrow> scored" where
  "with_columns a ts ds =
     \<lparr>title = title a, description = description a, source = source a, url = url a,
      published_at = published_at a, fetch_timestamp = fetch_timestamp a,
      company = company a,
      title_sentiment = ts, description_sentiment = ds,
      overall_sentiment = overall_expr ts ds,
      sentiment_label = label_expr (overall_expr ts ds)\<rparr>"

definition score_article :: "analyzer \<Rightarrow> article \<Rightarrow> py_exception + scored" where
  "score_article analyze a =
     (case get_sentiment analyze (title a) of
        Inl e \<Rightarrow> Inl e
      | Inr ts \<Rightarrow>
          (case get_sentiment analyze (description a) of
             Inl e \<Rightarrow> Inl e
           | Inr ds \<Rightarrow> Inr (with_columns a ts ds)))"

text \<open>The rows are scored in order; the first exception of the UDF fails the job.\<close>

fun sentiment_df :: "analyzer \<Rightarrow> article list \<Rightarrow> py_exception + scored list" where
  "sentiment_df analyze [] = Inr []"
| "sentiment_df analyze (a # df) =
     (case score_article analyze a of
        Inl e \<Rightarrow> Inl e
      | Inr r \<Rightarrow> (case sentiment_df analyze df of Inl e \<Rightarrow> Inl e | Inr rs \<Rightarrow> Inr (r # rs)))"

subsection \<open>Per-company statistics\<close>

text \<open>
  Spark's \<^verbatim>\<open>avg\<close> skips nulls and is null when no value is left. Here the sum and
  the division are exact; \<open>avg_double\<close> below rounds them as doubles do.
\<close>

fun non_null :: "'a option list \<Rightarrow> 'a list" where
  "non_null [] = []"
| "non_null (None # xs) = non_null xs"
| "non_null (Some v # xs) = v # non_null xs"

definition avg :: "real option list \<Rightarrow> real option" where
  "avg xs = (if non_null xs = [] then None
             else Some (sum_list (non_null xs) / real (length (non_null xs))))"

text \<open>
  \<^verbatim>\<open>when(col("sentiment_label") == lab, 1).otherwise(0)\<close>; the label is never null,
  so the comparison never is.
\<close>

definition indicator :: "string \<Rightarrow> scored \<Rightarrow> real option" where
  "indicator lab r = Some (when_otherwise [(Some (sentiment_label r = lab), 1)] 0)"

record company_aggregate =
  agg_company :: "string option"
  avg_sentiment :: "real option"
  article_count :: nat
  positive_ratio :: "real option"
  negative_ratio :: "real option"

definition agg :: "string option \<Rightarrow> scored list \<Rightarrow> company_aggregate" where
  "agg c g =
     \<lparr>agg_company = c,
      avg_sentiment = avg (map overall_sentiment g),
      article_count = length g,
      positive_ratio = avg (map (indicator ''positive'') g),
      negative_ratio = avg (map (indicator ''negative'') g)\<rparr>"

text \<open>
  \<^verbatim>\<open>groupBy("company")\<close>: one group per distinct value of the column, null being a
  value like any other. Spark leaves the order of the groups open; the model lists
  them as \<open>remdups\<close> does.
\<close>

definition group_of :: "string option \<Rightarrow> scored list \<Rightarrow> scored list" where
  "group_of c sdf = filter (\<lambda>r. company r = c) sdf"

definition group_by_company :: "scored list \<Rightarrow> (string option \<times> scored list) list" where
  "group_by_company sdf = map (\<lambda>c. (c, group_of c sdf)) (remdups (map company sdf))"

definition company_sentiment :: "scored list \<Rightarrow> company_aggregate list" where
  "company_sentiment sdf = map (\<lambda>(c, g). agg c g) (group_by_company sdf)"

subsection \<open>The most positive and the most negative articles\<close>

text \<open>
  \<^verbatim>\<open>orderBy("overall_sentiment")\<close> is ascending with nulls first,
  \<^verbatim>\<open>orderBy(desc("overall_sentiment"))\<close> descending with nulls last. Each relation
  says that its first argument may stand before its second. Spark leaves the order
  of equal keys open; the model's sort keeps their order in the batch.
\<close>

definition asc_nulls_first :: "real option \<Rightarrow> real option \<Rightarrow> bool" where
  "asc_nulls_first a b =
     (case a of None \<Rightarrow> True | Some x \<Rightarrow> (case b of None \<Rightarrow> False | Some y \<Rightarrow> x \<le> y))"

definition desc_nulls_last :: "real option \<Rightarrow> real option \<Rightarrow> bool" where
  "desc_nulls_last a b =
     (case b of None \<Rightarrow> True | Some y \<Rightarrow> (case a of None \<Rightarrow> False | Some x \<Rightarrow> y \<le> x))"

fun insert_by :: "(real option \<Rightarrow> real option \<Rightarrow> bool) \<Rightarrow> scored \<Rightarrow> scored list \<Rightarrow> scored list" where
  "insert_by precedes r [] = [r]"
| "insert_by precedes r (s # ss) =
     (if precedes (overall_sentiment r) (overall_sentiment s) then r # s # ss
      else s # insert_by precedes r ss)"

definition order_by :: "(real option \<Rightarrow> real option \<Rightarrow> bool) \<Rightarrow> scored list \<Rightarrow> scored list" where
  "order_by precedes sdf = foldr (insert_by precedes) sdf []"

type_synonym shown_article = "string option \<times> string option \<times> real option"

definition select_cols :: "scored \<Rightarrow> shown_article" where
  "select_cols r = (company r, title r, overall_sentiment r)"

definition most_positive :: "scored list \<Rightarrow> shown_article list" where
  "most_positive sdf = take 3 (map select_cols (order_by desc_nulls_last sdf))"

definition most_negative :: "scored list \<Rightarrow> shown_article list" where
  "most_negative sdf = take 3 (map select_cols (order_by asc_nulls_first sdf))"

subsection \<open>The Cassandra session\<close>

text \<open>
  The values bound to the prepared \<^verbatim>\<open>INSERT\<close>, in the order of its columns:
  timestamp, company, title, description, title\_sentiment, description\_sentiment,
  overall\_sentiment, sentiment\_label.
\<close>

type_synonym bound_values =
  "int option \<times> string option \<times> string option \<times> string option \<times>
   real option \<times> real option \<times> real option \<times> string"

definition insert_values :: "scored \<Rightarrow> bound_values" where
  "insert_values row =
     (fetch_timestamp row, company row, title row, description row,
      title_sentiment row, description_sentiment row,
      overall_sentiment row, sentiment_label row)"

text \<open>\<^verbatim>\<open>PRIMARY KEY (timestamp, company)\<close>.\<close>

definition primary_key :: "bound_values \<Rightarrow> int option \<times> string option" where
  "primary_key vals = (fst vals, fst (snd vals))"

text \<open>
  The store is outside the repository. A keyspace is a map from table names to
  tables, a table a map from primary keys to rows (an insert under a key that is
  there replaces the row). Of CQL only the two statements of the source are modelled:
  \<open>CreateTable if_not_exists name\<close> and \<open>InsertInto name values\<close>. Which rows the store
  refuses is the parameter \<open>rejects\<close>.
\<close>

type_synonym table = "(int option \<times> string option) \<rightharpoonup> bound_values"
type_synonym keyspace = "string \<rightharpoonup> table"

datatype statement = CreateTable bool string | InsertInto string bound_values

definition put_row :: "bound_values \<Rightarrow> table \<Rightarrow> table" where
  "put_row vals rows = rows(primary_key vals \<mapsto> vals)"

fun session_execute ::
  "(bound_values \<Rightarrow> py_exception option) \<Rightarrow> statement \<Rightarrow> keyspace \<Rightarrow> keyspace \<times> (py_exception + unit)" where
  "session_execute rejects (CreateTable if_not_exists t) db =
     (case db t of
        None \<Rightarrow> (db(t \<mapsto> Map.empty), Inr ())
      | Some rows \<Rightarrow>
          (db, if if_not_exists then Inr () else Inl (Exception ''AlreadyExists'')))"
| "session_execute rejects (InsertInto t vals) db =
     (case db t of
        None \<Rightarrow> (db, Inl (Exception ''unconfigured table''))
      | Some rows \<Rightarrow>
          (case rejects vals of
             Some e \<Rightarrow> (db, Inl e)
           | None \<Rightarrow> (db(t \<mapsto> put_row vals rows), Inr ())))"

definition create_table_query :: "string \<Rightarrow> statement" where
  "create_table_query t = CreateTable True t"

definition insert_query :: "string \<Rightarrow> bound_values \<Rightarrow> statement" where
  "insert_query t vals = InsertInto t vals"

text \<open>
  \<^verbatim>\<open>for row in df.collect(): session.execute(insert_query, (...))\<close>. Nothing in the
  loop catches: the first exception leaves it, with the rows written so far in the
  store.
\<close>

fun insert_each ::
  "(bound_values \<Rightarrow> py_exception option) \<Rightarrow> string \<Rightarrow> scored list \<Rightarrow> keyspace \<Rightarrow> keyspace \<times> (py_exception + unit)" where
  "insert_each rejects t [] db = (db, Inr ())"
| "insert_each rejects t (row # rows) db =
     (case session_execute rejects (insert_query t (insert_values row)) db of
        (db', Inl e) \<Rightarrow> (db', Inl e)
      | (db', Inr u) \<Rightarrow> insert_each rejects t rows db')"

subsection \<open>The batch handler\<close>

text \<open>What the handler prints, one constructor for each \<^verbatim>\<open>print\<close> and \<^verbatim>\<open>show\<close>.\<close>

datatype line =
    NoData int
  | Processing int
  | CompanyHeader
  | ShowCompany "company_aggregate list"
  | PositiveHeader
  | NegativeHeader
  | ShowArticles "shown_article list"
  | Saved string string
  | ErrorProcessing int string

record world =
  stdout :: "line list"
  db :: keyspace

definition print_line :: "line \<Rightarrow> world \<Rightarrow> world" where
  "print_line l w = w\<lparr>stdout := stdout w @ [l]\<rparr>"

text \<open>What lies outside the repository: VADER, the cluster and the store's checks.\<close>

record collaborators =
  compound_score :: analyzer
  connect :: "string \<Rightarrow> py_exception option"
  rejects :: "bound_values \<Rightarrow> py_exception option"

definition save_to_cassandra ::
  "collaborators \<Rightarrow> scored list \<Rightarrow> string \<Rightarrow> string \<Rightarrow> world \<Rightarrow> world \<times> (py_exception + unit)" where
  "save_to_cassandra env sdf ks t w =
     (case connect env ks of
        Some e \<Rightarrow> (w, Inl e)
      | None \<Rightarrow>
          (case session_execute (rejects env) (create_table_query t) (db w) of
             (db1, Inl e) \<Rightarrow> (w\<lparr>db := db1\<rparr>, Inl e)
           | (db1, Inr u) \<Rightarrow>
               (case insert_each (rejects env) t sdf db1 of
                  (db2, Inl e) \<Rightarrow> (w\<lparr>db := db2\<rparr>, Inl e)
                | (db2, Inr u) \<Rightarrow> (print_line (Saved t ks) (w\<lparr>db := db2\<rparr>), Inr ()))))"

text \<open>
  The body of the \<^verbatim>\<open>try\<close>. The DataFrame is lazy: the UDF first runs, and can first
  fail, in \<^verbatim>\<open>company_sentiment.show()\<close>, after the two lines printed before it.
  \<^verbatim>\<open>show()\<close> prints at most 20 rows.
\<close>

definition process_batch_body ::
  "collaborators \<Rightarrow> article list \<Rightarrow> int \<Rightarrow> world \<Rightarrow> world \<times> (py_exception + unit)" where
  "process_batch_body env df epoch_id w =
     (if df = [] then (print_line (NoData epoch_id) w, Inr ())
      else
        (case sentiment_df (compound_score env) df of
           Inl e \<Rightarrow> (print_line CompanyHeader (print_line (Processing epoch_id) w), Inl e)
         | Inr sdf \<Rightarrow>
             save_to_cassandra env sdf ''stock_analysis'' ''news_sentiment''
               (print_line (ShowArticles (most_negative sdf))
               (print_line NegativeHeader
               (print_line (ShowArticles (most_positive sdf))
               (print_line PositiveHeader
               (print_line (ShowCompany (take 20 (company_sentiment sdf)))
               (print_line CompanyHeader
               (print_line (Processing epoch_id) w)))))))))"

text \<open>\<^verbatim>\<open>except Exception as e: print(f"Error processing batch {epoch_id}: {str(e)}")\<close>\<close>

definition process_batch ::
  "collaborators \<Rightarrow> article list \<Rightarrow> int \<Rightarrow> world \<Rightarrow> world \<times> (py_exception + unit)" where
  "process_batch env df epoch_id w =
     (case process_batch_body env df epoch_id w of
        (w', Inr u) \<Rightarrow> (w', Inr u)
      | (w', Inl (Exception msg)) \<Rightarrow> (print_line (ErrorProcessing epoch_id msg) w', Inr ()))"

text \<open>
  \<^verbatim>\<open>foreachBatch(process_batch)\<close>: the streaming query calls the handler on each
  micro-batch with the next epoch id, and stops with the exception of a handler that
  raises.
\<close>

fun foreach_batch ::
  "(article list \<Rightarrow> int \<Rightarrow> world \<Rightarrow> world \<times> (py_exception + unit)) \<Rightarrow>
   article list list \<Rightarrow> int \<Rightarrow> world \<Rightarrow> world \<times> (py_exception + unit)" where
  "foreach_batch handler [] epoch_id w = (w, Inr ())"
| "foreach_batch handler (df # dfs) epoch_id w =
     (case handler df epoch_id w of
        (w', Inl e) \<Rightarrow> (w', Inl e)
      | (w', Inr u) \<Rightarrow> foreach_batch handler dfs (epoch_id + 1) w')"

subsection \<open>Example inputs\<close>

text \<open>An analyzer given by a table of scores; it raises on any other text.\<close>

definition table_analyzer :: "(string \<times> real) list \<Rightarrow> analyzer" where
  "table_analyzer scores text =
     (case map_of scores text of None \<Rightarrow> Inl (Exception ''analyzer failed'') | Some v \<Rightarrow> Inr v)"

definition news :: "string option \<Rightarrow> string option \<Rightarrow> int \<Rightarrow> string \<Rightarrow> article" where
  "news t d ts c =
     \<lparr>title = t, description = d, source = None, url = None, published_at = None,
      fetch_timestamp = Some ts, company = Some c\<rparr>"

definition acme_scores :: "(string \<times> real) list" where
  "acme_scores = [(''Stock soars'', 0.6), (''Shares fall'', - 0.2)]"

definition acme_news :: article where
  "acme_news = news (Some ''Stock soars'') (Some ''Shares fall'') 1 ''ACME''"

definition stock_soars :: article where
  "stock_soars = news (Some ''Stock soars'') None 1 ''ACME''"

definition boundary_scores :: "(string \<times> real) list" where
  "boundary_scores = [(''up'', 0.05), (''down'', - 0.05), (''flat'', 0.04)]"

definition boundary_df :: "article list" where
  "boundary_df =
     [news (Some ''up'') (Some ''up'') 1 ''ACME'',
      news (Some ''down'') (Some ''down'') 2 ''ACME'',
      news (Some ''flat'') (Some ''flat'') 3 ''ACME'']"


definition sample_sdf :: "scored list" where
  "sample_sdf =
     [with_columns (news (Some ''Profit up'') (Some ''Record quarter'') 1 ''ACME'') (Some 0.8) (Some 0.4),
      with_columns (news (Some ''Recall'') (Some ''Plant closed'') 2 ''GLOBEX'') (Some (- 0.5)) (Some (- 0.3)),
      with_columns (news (Some ''Meeting'') (Some ''Agenda'') 3 ''ACME'') (Some 0) (Some 0),
      with_columns (news (Some ''Stock soars'') None 4 ''ACME'') (Some 0.6) None]"

definition permuted_sdf :: "scored list" where
  "permuted_sdf = [sample_sdf ! 3, sample_sdf ! 0, sample_sdf ! 2, sample_sdf ! 1]"

definition acme_aggregate :: company_aggregate where
  "acme_aggregate =
     \<lparr>agg_company = Some ''ACME'', avg_sentiment = Some 0.3, article_count = 3,
      positive_ratio = Some (1 / 3), negative_ratio = Some 0\<rparr>"

definition globex_aggregate :: company_aggregate where
  "globex_aggregate =
     \<lparr>agg_company = Some ''GLOBEX'', avg_sentiment = Some (- 0.4), article_count = 1,
      positive_ratio = Some 0, negative_ratio = Some 1\<rparr>"

definition five_sdf :: "scored list" where
  "five_sdf =
     [with_columns (news (Some ''Record profit'') (Some ''Best year'') 1 ''ACME'') (Some 0.9) (Some 0.9),
      with_columns (news (Some ''New office'') (Some ''Opening'') 2 ''GLOBEX'') (Some 0.1) (Some 0.1),
      with_columns (news (Some ''Fraud probe'') (Some ''Shares plunge'') 3 ''INITECH'') (Some (- 0.8)) (Some (- 0.8)),
      with_columns (news (Some ''Upgrade'') (Some ''Analysts agree'') 4 ''ACME'') (Some 0.5) (Some 0.5),
      with_columns (news (Some ''Delay'') (Some ''Launch slips'') 5 ''GLOBEX'') (Some (- 0.2)) (Some (- 0.2))]"

text \<open>
  \<^verbatim>\<open>SELECT * FROM t WHERE timestamp = ? AND company = ?\<close>: the row of a table under a
  primary key, to observe what a write has left in the store.
\<close>

definition select_row :: "keyspace \<Rightarrow> string \<Rightarrow> int option \<times> string option \<Rightarrow> bound_values option" where
  "select_row ks t k = (case ks t of None \<Rightarrow> None | Some rows \<Rightarrow> rows k)"

text \<open>A store that refuses a row with a null in its primary key.\<close>

definition null_key_rejects :: "bound_values \<Rightarrow> py_exception option" where
  "null_key_rejects vals =
     (if fst (primary_key vals) = None \<or> snd (primary_key vals) = None
      then Some (Exception ''Invalid null value in condition for column'')
      else None)"

text \<open>Three scored rows; the second has a null company.\<close>

definition row_acme :: scored where
  "row_acme =
     with_columns (news (Some ''Profit up'') (Some ''Record quarter'') 1 ''ACME'') (Some 0.8) (Some 0.4)"

definition row_null_company :: scored where
  "row_null_company =
     with_columns ((news (Some ''Recall'') (Some ''Plant closed'') 2 ''GLOBEX'')\<lparr>company := None\<rparr>)
       (Some (- 0.5)) (Some (- 0.3))"

definition row_initech :: scored where
  "row_initech =
     with_columns (news (Some ''Meeting'') (Some ''Agenda'') 3 ''INITECH'') (Some 0) (Some 0)"

definition three_rows :: "scored list" where
  "three_rows = [row_acme, row_null_company, row_initech]"

definition local_cluster :: collaborators where
  "local_cluster =
     \<lparr>compound_score = table_analyzer acme_scores,
      connect = (\<lambda>keyspace. None),
      rejects = null_key_rejects\<rparr>"

definition unscored_df :: "article list" where
  "unscored_df = [news (Some ''Unscored text'') None 9 ''ACME'']"

definition empty_world :: world where
  "empty_world = \<lparr>stdout = [], db = Map.empty\<rparr>"

subsection \<open>The aggregation in double precision\<close>

text \<open>
  The sentiment columns are \<^verbatim>\<open>DoubleType\<close>, IEEE 754 binary64: a double is a real with
  a significand of 53 bits, and an operation returns its exact result rounded to the
  nearest double, a tie to the double with the even significand. The exponent \<open>e\<close>
  of \<open>x\<close>, with \<open>2 powi e \<le> \<bar>x\<bar> < 2 powi (e + 1)\<close>, is searched from 0 over the exponents of
  doubles; \<open>ulp x\<close> is the distance between the doubles around \<open>x\<close>, fixed below the
  smallest normal double. Overflow to infinity is left out.
\<close>

fun exponent_from :: "nat \<Rightarrow> int \<Rightarrow> real \<Rightarrow> int" where
  "exponent_from 0 e x = e"
| "exponent_from (Suc fuel) e x =
     (if \<bar>x\<bar> < 2 powi e then exponent_from fuel (e - 1) x
      else if 2 powi (e + 1) \<le> \<bar>x\<bar> then exponent_from fuel (e + 1) x
      else e)"

definition exponent :: "real \<Rightarrow> int" where
  "exponent x = exponent_from 1100 0 x"

definition round_half_even :: "real \<Rightarrow> int" where
  "round_half_even q =
     (if q - of_int \<lfloor>q\<rfloor> < 1 / 2 then \<lfloor>q\<rfloor>
      else if 1 / 2 < q - of_int \<lfloor>q\<rfloor> then \<lfloor>q\<rfloor> + 1
      else if even \<lfloor>q\<rfloor> then \<lfloor>q\<rfloor> else \<lfloor>q\<rfloor> + 1)"

definition ulp :: "real \<Rightarrow> real" where
  "ulp x = 2 powi (max (exponent x - 52) (- 1074))"

definition round_double :: "real \<Rightarrow> real" where
  "round_double x = (if x = 0 then 0 else of_int (round_half_even (x / ulp x)) * ulp x)"

text \<open>
  Spark's \<^verbatim>\<open>avg\<close> on doubles: the sum starts at 0.0 and each value of the group is added
  to it in the order of the rows (one partition), nulls skipped; the result is the
  sum divided by the count.
\<close>

definition sum_double :: "real list \<Rightarrow> real" where
  "sum_double xs = foldl (\<lambda>s x. round_double (s + x)) 0 xs"

definition avg_double :: "real option list \<Rightarrow> real option" where
  "avg_double xs =
     (if non_null xs = [] then None
      else Some (round_double (sum_double (non_null xs) / real (length (non_null xs)))))"

definition agg_double :: "string option \<Rightarrow> scored list \<Rightarrow> company_aggregate" where
  "agg_double c g =
     \<lparr>agg_company = c,
      avg_sentiment = avg_double (map overall_sentiment g),
      article_count = length g,
      positive_ratio = avg_double (map (indicator ''positive'') g),
      negative_ratio = avg_double (map (indicator ''negative'') g)\<rparr>"

definition company_sentiment_double :: "scored list \<Rightarrow> company_aggregate list" where
  "company_sentiment_double sdf = map (\<lambda>(c, g). agg_double c g) (group_by_company sdf)"

text \<open>
  A row of the aggregation without the value of its \<open>avg_sentiment\<close>, of which only
  whether it is null is kept.
\<close>

definition without_avg_value ::
  "company_aggregate \<Rightarrow> string option \<times> nat \<times> real option \<times> real option \<times> bool" where
  "without_avg_value a =
     (agg_company a, article_count a, positive_ratio a, negative_ratio a, avg_sentiment a = None)"

text \<open>
  Three articles of one company whose overall sentiments are the doubles 0.1, 0.2
  and 0.3 (title and description have the same score, so that their mean is that
  score, in doubles too).
\<close>

definition tenths_sdf :: "scored list" where
  "tenths_sdf =
     [with_columns (news (Some ''Up a bit'') (Some ''Up a bit'') 1 ''ACME'')
        (Some (round_double 0.1)) (Some (round_double 0.1)),
      with_columns (news (Some ''Up more'') (Some ''Up more'') 2 ''ACME'')
        (Some (round_double 0.2)) (Some (round_double 0.2)),
      with_columns (news (Some ''Up most'') (Some ''Up most'') 3 ''ACME'')
        (Some (round_double 0.3)) (Some (round_double 0.3))]"

section \<open>Scoring and labelling\<close>

lemma sentiment_df_rows:
  "sentiment_df analyze df = Inr sdf \<Longrightarrow>
     length sdf = length df \<and> (\<forall>i<length df. score_article analyze (df ! i) = Inr (sdf ! i))"
proof (induction df arbitrary: sdf)
  case Nil
  then show ?case by simp
next
  case (Cons a df)
  from Cons.prems obtain r rs where r: "score_article analyze a = Inr r"
    and rs: "sentiment_df analyze df = Inr rs" and sdf: "sdf = r # rs"
    by (auto split: sum.splits)
  from Cons.IH [OF rs] have len: "length rs = length df"
    and nth: "\<forall>i<length df. score_article analyze (df ! i) = Inr (rs ! i)" by simp_all
  show ?case
  proof (intro conjI allI impI)
    show "length sdf = length (a # df)" using len sdf by simp
  next
    fix i assume "i < length (a # df)"
    then show "score_article analyze ((a # df) ! i) = Inr (sdf ! i)"
      using r nth sdf by (cases i) simp_all
  qed
qed

lemma sentiment_df_member:
  assumes "sentiment_df analyze df = Inr sdf" and "r \<in> set sdf"
  shows "\<exists>a\<in>set df. score_article analyze a = Inr r"
proof -
  from assms(2) obtain i where i: "i < length sdf" and r: "sdf ! i = r"
    by (auto simp: in_set_conv_nth)
  from sentiment_df_rows [OF assms(1)] i r
  have "i < length df" and "score_article analyze (df ! i) = Inr r" by auto
  then show ?thesis using nth_mem by blast
qed

lemma score_article_columns:
  assumes "score_article analyze a = Inr r"
  shows "overall_sentiment r = overall_expr (title_sentiment r) (description_sentiment r)"
    and "sentiment_label r = label_expr (overall_sentiment r)"
  using assms
  by (auto simp: score_article_def with_columns_def split: sum.splits)

lemma label_expr_Some:
  "label_expr (Some v) =
     (if 0.05 \<le> v then ''positive'' else if v \<le> - 0.05 then ''negative'' else ''neutral'')"
  by (simp add: label_expr_def when_otherwise_def col_ge_def col_le_def)

lemma label_expr_None: "label_expr None = ''neutral''"
  by (simp add: label_expr_def when_otherwise_def col_ge_def col_le_def)

lemma overall_expr_simps:
  "overall_expr (Some x) (Some y) = Some ((x + y) / 2)"
  "overall_expr None ds = None"
  "overall_expr ts None = None"
  by (simp_all add: overall_expr_def col_add_def col_div_def split: option.splits)

lemma get_sentiment_None_iff:
  "get_sentiment analyze text = Inr s \<Longrightarrow> (s = None) = (text = None)"
  by (auto simp: get_sentiment_def split: option.splits sum.splits)

lemma score_article_text:
  assumes "score_article analyze a = Inr r"
  shows "article.truncate r = a"
    and "(title_sentiment r = None) = (title a = None)"
    and "(description_sentiment r = None) = (description a = None)"
  using assms
  by (auto simp: score_article_def with_columns_def article.truncate_def
      dest: get_sentiment_None_iff split: sum.splits)

lemmas scoring_defs =
  news_def score_article_def get_sentiment_def table_analyzer_def

text \<open>
  C1. Every row of a scored batch whose \<open>title_sentiment\<close> and
  \<open>description_sentiment\<close> are both present has
  \<open>overall_sentiment = (title_sentiment + description_sentiment) / 2\<close>.
\<close>

theorem overall_is_mean:
  assumes "sentiment_df analyze df = Inr sdf" and "r \<in> set sdf"
    and "title_sentiment r = Some t" and "description_sentiment r = Some d"
  shows "overall_sentiment r = Some ((t + d) / 2)"
proof -
  from sentiment_df_member [OF assms(1,2)] obtain a where "score_article analyze a = Inr r"
    by blast
  then have "overall_sentiment r = overall_expr (title_sentiment r) (description_sentiment r)"
    by (rule score_article_columns)
  then show ?thesis
    using assms(3,4) by (simp add: overall_expr_simps)
qed

theorem overall_is_mean_witness:
  "sentiment_df (table_analyzer acme_scores) [acme_news] =
     Inr [with_columns acme_news (Some 0.6) (Some (- 0.2))] \<and>
   overall_sentiment (with_columns acme_news (Some 0.6) (Some (- 0.2))) = Some ((0.6 + - 0.2) / 2)"
proof -
  have s: "sentiment_df (table_analyzer acme_scores) [acme_news] =
             Inr [with_columns acme_news (Some 0.6) (Some (- 0.2))]"
    by (simp add: acme_scores_def acme_news_def scoring_defs)
  have "overall_sentiment (with_columns acme_news (Some 0.6) (Some (- 0.2))) =
          Some ((0.6 + - 0.2) / 2)"
    by (rule overall_is_mean [OF s]) (simp_all add: with_columns_def)
  with s show ?thesis by simp
qed

text \<open>
  C2. For a row with a numeric \<open>overall_sentiment\<close> the label is fixed by two inclusive
  thresholds: at or above 0.05 it is positive, at or below -0.05 negative, and
  neutral strictly between them. The witness scores a batch with the three values
  0.05, -0.05 and 0.04.
\<close>

theorem label_thresholds:
  assumes "sentiment_df analyze df = Inr sdf" and "r \<in> set sdf"
    and "overall_sentiment r = Some v"
  shows "(0.05 \<le> v \<longrightarrow> sentiment_label r = ''positive'') \<and>
         (v \<le> - 0.05 \<longrightarrow> sentiment_label r = ''negative'') \<and>
         (- 0.05 < v \<and> v < 0.05 \<longrightarrow> sentiment_label r = ''neutral'')"
proof -
  from sentiment_df_member [OF assms(1,2)] obtain a where "score_article analyze a = Inr r"
    by blast
  then have "sentiment_label r = label_expr (overall_sentiment r)"
    by (rule score_article_columns)
  then show ?thesis
    using assms(3) by (simp add: label_expr_Some)
qed

theorem label_thresholds_witness:
  "sentiment_df (table_analyzer boundary_scores) boundary_df =
     Inr [with_columns (boundary_df ! 0) (Some 0.05) (Some 0.05),
          with_columns (boundary_df ! 1) (Some (- 0.05)) (Some (- 0.05)),
          with_columns (boundary_df ! 2) (Some 0.04) (Some 0.04)] \<and>
   overall_sentiment (with_columns (boundary_df ! 0) (Some 0.05) (Some 0.05)) = Some 0.05 \<and>
   sentiment_label (with_columns (boundary_df ! 0) (Some 0.05) (Some 0.05)) = ''positive'' \<and>
   overall_sentiment (with_columns (boundary_df ! 1) (Some (- 0.05)) (Some (- 0.05))) = Some (- 0.05) \<and>
   sentiment_label (with_columns (boundary_df ! 1) (Some (- 0.05)) (Some (- 0.05))) = ''negative'' \<and>
   overall_sentiment (with_columns (boundary_df ! 2) (Some 0.04) (Some 0.04)) = Some 0.04 \<and>
   sentiment_label (with_columns (boundary_df ! 2) (Some 0.04) (Some 0.04)) = ''neutral''"
proof -
  let ?r0 = "with_columns (boundary_df ! 0) (Some 0.05) (Some 0.05)"
  let ?r1 = "with_columns (boundary_df ! 1) (Some (- 0.05)) (Some (- 0.05))"
  let ?r2 = "with_columns (boundary_df ! 2) (Some 0.04) (Some 0.04)"
  have s: "sentiment_df (table_analyzer boundary_scores) boundary_df = Inr [?r0, ?r1, ?r2]"
    by (simp add: boundary_scores_def boundary_df_def scoring_defs)
  have o0: "overall_sentiment ?r0 = Some 0.05"
    and o1: "overall_sentiment ?r1 = Some (- 0.05)"
    and o2: "overall_sentiment ?r2 = Some 0.04"
    by (simp_all add: with_columns_def overall_expr_simps)
  have "sentiment_label ?r0 = ''positive''"
    using label_thresholds [OF s _ o0] by simp
  moreover have "sentiment_label ?r1 = ''negative''"
    using label_thresholds [OF s _ o1] by simp
  moreover have "sentiment_label ?r2 = ''neutral''"
    using label_thresholds [OF s _ o2] by simp
  ultimately show ?thesis using s o0 o1 o2 by simp
qed

text \<open>
  C3, as the code has it. An article with exactly one of title and description null
  gets a null \<open>overall_sentiment\<close>, although the sentiment of the other field is
  present: there is no fallback to the present field, and nothing is averaged as
  zero. For the title "Stock soars" with a null description the row below is what
  the scoring step returns.
\<close>

theorem one_null_text_gives_null_overall:
  assumes "score_article analyze a = Inr r"
    and "(title a = None) \<noteq> (description a = None)"
  shows "overall_sentiment r = None \<and>
         (\<exists>v. (title_sentiment r = Some v \<and> description_sentiment r = None) \<or>
              (title_sentiment r = None \<and> description_sentiment r = Some v))"
proof -
  from score_article_text [OF assms(1)] assms(2)
  have one: "(title_sentiment r = None) \<noteq> (description_sentiment r = None)"
    by simp
  from score_article_columns(1) [OF assms(1)] one
  have "overall_sentiment r = None"
    by (auto simp: overall_expr_simps)
  with one show ?thesis by auto
qed

theorem one_null_text_gives_null_overall_witness:
  "score_article (table_analyzer acme_scores) stock_soars =
     Inr (with_columns stock_soars (Some 0.6) None) \<and>
   title stock_soars = Some ''Stock soars'' \<and> description stock_soars = None \<and>
   title_sentiment (with_columns stock_soars (Some 0.6) None) = Some 0.6 \<and>
   overall_sentiment (with_columns stock_soars (Some 0.6) None) = None"
proof -
  have s: "score_article (table_analyzer acme_scores) stock_soars =
             Inr (with_columns stock_soars (Some 0.6) None)"
    by (simp add: acme_scores_def stock_soars_def scoring_defs)
  have t: "title stock_soars = Some ''Stock soars''" and d: "description stock_soars = None"
    by (simp_all add: stock_soars_def news_def)
  from one_null_text_gives_null_overall [OF s] t d s show ?thesis
    by (simp add: with_columns_def)
qed

text \<open>
  The scoring step on the article with title "Stock soars", a null description and
  company "ACME", with an analyzer that scores the title 0.6: \<open>overall_sentiment\<close>
  is null and not the title's 0.6.
\<close>

theorem null_description_counterexample:
  "score_article (table_analyzer [(''Stock soars'', 0.6)]) stock_soars =
     Inr \<lparr>title = Some ''Stock soars'', description = None, source = None, url = None,
          published_at = None, fetch_timestamp = Some 1, company = Some ''ACME'',
          title_sentiment = Some 0.6, description_sentiment = None,
          overall_sentiment = None, sentiment_label = ''neutral''\<rparr>"
  by (simp add: stock_soars_def scoring_defs with_columns_def overall_expr_simps label_expr_None)

text \<open>
  C10. A row of the batch whose title or description is null is kept at its place
  with its article columns unchanged; the sentiment of the null field is null, so
  \<open>overall_sentiment\<close> is null and the label is neutral.
\<close>

theorem null_sentiment_is_neutral:
  assumes "sentiment_df analyze df = Inr sdf" and "i < length df"
    and "title (df ! i) = None \<or> description (df ! i) = None"
  shows "i < length sdf \<and> article.truncate (sdf ! i) = df ! i \<and>
         (title_sentiment (sdf ! i) = None \<or> description_sentiment (sdf ! i) = None) \<and>
         overall_sentiment (sdf ! i) = None \<and> sentiment_label (sdf ! i) = ''neutral''"
proof -
  from sentiment_df_rows [OF assms(1)] assms(2)
  have len: "i < length sdf" and sc: "score_article analyze (df ! i) = Inr (sdf ! i)"
    by simp_all
  from score_article_text [OF sc] assms(3)
  have null: "title_sentiment (sdf ! i) = None \<or> description_sentiment (sdf ! i) = None"
    and tr: "article.truncate (sdf ! i) = df ! i"
    by simp_all
  from score_article_columns [OF sc]
  have ov: "overall_sentiment (sdf ! i) =
              overall_expr (title_sentiment (sdf ! i)) (description_sentiment (sdf ! i))"
    and lab: "sentiment_label (sdf ! i) = label_expr (overall_sentiment (sdf ! i))"
    by simp_all
  from null ov have "overall_sentiment (sdf ! i) = None"
    by (auto simp: overall_expr_simps)
  with lab len tr null show ?thesis
    by (simp add: label_expr_None)
qed

theorem null_sentiment_is_neutral_witness:
  "sentiment_df (table_analyzer acme_scores) [acme_news, stock_soars] =
     Inr [with_columns acme_news (Some 0.6) (Some (- 0.2)),
          with_columns stock_soars (Some 0.6) None] \<and>
   description stock_soars = None \<and>
   article.truncate (with_columns stock_soars (Some 0.6) None) = stock_soars \<and>
   description_sentiment (with_columns stock_soars (Some 0.6) None) = None \<and>
   overall_sentiment (with_columns stock_soars (Some 0.6) None) = None \<and>
   sentiment_label (with_columns stock_soars (Some 0.6) None) = ''neutral''"
proof -
  have s: "sentiment_df (table_analyzer acme_scores) [acme_news, stock_soars] =
     Inr [with_columns acme_news (Some 0.6) (Some (- 0.2)),
          with_columns stock_soars (Some 0.6) None]"
    by (simp add: acme_scores_def acme_news_def stock_soars_def scoring_defs)
  have d: "description stock_soars = None"
    by (simp add: stock_soars_def news_def)
  have "article.truncate ([with_columns acme_news (Some 0.6) (Some (- 0.2)),
            with_columns stock_soars (Some 0.6) None] ! 1) = [acme_news, stock_soars] ! 1 \<and>
        overall_sentiment ([with_columns acme_news (Some 0.6) (Some (- 0.2)),
            with_columns stock_soars (Some 0.6) None] ! 1) = None \<and>
        sentiment_label ([with_columns acme_news (Some 0.6) (Some (- 0.2)),
            with_columns stock_soars (Some 0.6) None] ! 1) = ''neutral''"
    using null_sentiment_is_neutral [OF s, of 1] d by simp
  then have "article.truncate (with_columns stock_soars (Some 0.6) None) = stock_soars \<and>
        overall_sentiment (with_columns stock_soars (Some 0.6) None) = None \<and>
        sentiment_label (with_columns stock_soars (Some 0.6) None) = ''neutral''"
    by simp
  moreover have "description_sentiment (with_columns stock_soars (Some 0.6) None) = None"
    by (simp add: with_columns_def)
  ultimately show ?thesis using s d by simp
qed

section \<open>Per-company aggregation\<close>

lemma company_sentiment_eq:
  "company_sentiment sdf = map (\<lambda>c. agg c (group_of c sdf)) (remdups (map company sdf))"
  by (simp add: company_sentiment_def group_by_company_def comp_def)

lemma non_null_Some: "non_null (map (\<lambda>x. Some (f x)) xs) = map f xs"
  by (induction xs) simp_all

lemma sum_list_indicator:
  "sum_list (map (\<lambda>r. if P r then 1 else 0) g) = real (length (filter P g))"
  by (induction g) simp_all

lemma avg_indicator:
  assumes "g \<noteq> []"
  shows "avg (map (indicator lab) g) =
           Some (real (length (filter (\<lambda>r. sentiment_label r = lab) g)) / real (length g))"
proof -
  have "map (indicator lab) g =
          map (\<lambda>r. Some (if sentiment_label r = lab then 1 else 0)) g"
    by (simp add: indicator_def when_otherwise_def)
  then have "non_null (map (indicator lab) g) =
          map (\<lambda>r. if sentiment_label r = lab then 1 else 0) g"
    by (simp only: non_null_Some)
  then show ?thesis
    using assms by (simp add: avg_def sum_list_indicator)
qed

lemma non_null_all_present:
  "\<forall>x\<in>set xs. x \<noteq> None \<Longrightarrow> non_null xs = map the xs"
  by (induction xs) auto

text \<open>
  C6. The aggregation has exactly one row per distinct company of the batch. In the
  row of a company, \<open>article_count\<close> is the size of the company's group and is
  positive, \<open>positive_ratio\<close> and \<open>negative_ratio\<close> are the numbers of articles
  labelled positive and negative over \<open>article_count\<close>, and \<open>avg_sentiment\<close> is the
  mean of the \<open>overall_sentiment\<close> values of the group: Spark's \<open>avg\<close> of the column,
  which is the sum over \<open>article_count\<close> when every article of the group has a value.
\<close>

theorem aggregate_per_company:
  "distinct (map agg_company (company_sentiment sdf)) \<and>
   set (map agg_company (company_sentiment sdf)) = company ` set sdf \<and>
   (\<forall>a\<in>set (company_sentiment sdf).
      article_count a = length (group_of (agg_company a) sdf) \<and>
      0 < article_count a \<and>
      positive_ratio a =
        Some (real (length (filter (\<lambda>r. sentiment_label r = ''positive'') (group_of (agg_company a) sdf)))
              / real (article_count a)) \<and>
      negative_ratio a =
        Some (real (length (filter (\<lambda>r. sentiment_label r = ''negative'') (group_of (agg_company a) sdf)))
              / real (article_count a)) \<and>
      avg_sentiment a = avg (map overall_sentiment (group_of (agg_company a) sdf)) \<and>
      ((\<forall>r\<in>set (group_of (agg_company a) sdf). overall_sentiment r \<noteq> None) \<longrightarrow>
         avg_sentiment a =
           Some (sum_list (map (\<lambda>r. the (overall_sentiment r)) (group_of (agg_company a) sdf))
                 / real (article_count a))))"
proof (intro conjI ballI)
  have names: "map agg_company (company_sentiment sdf) = remdups (map company sdf)"
    by (simp add: company_sentiment_eq comp_def agg_def)
  show "distinct (map agg_company (company_sentiment sdf))"
    by (simp only: names distinct_remdups)
  show "set (map agg_company (company_sentiment sdf)) = company ` set sdf"
    by (simp only: names set_remdups set_map)
next
  fix a assume "a \<in> set (company_sentiment sdf)"
  then obtain c where c: "c \<in> company ` set sdf" and a: "a = agg c (group_of c sdf)"
    by (auto simp: company_sentiment_eq)
  let ?g = "group_of (agg_company a) sdf"
  have g: "?g = group_of c sdf" by (simp add: a agg_def)
  from c have "group_of c sdf \<noteq> []"
    by (auto simp: group_of_def filter_empty_conv)
  then have ne: "?g \<noteq> []" by (simp add: g)
  show cnt: "article_count a = length ?g" by (simp add: a agg_def)
  show "0 < article_count a" using ne cnt by simp
  show "positive_ratio a =
        Some (real (length (filter (\<lambda>r. sentiment_label r = ''positive'') ?g)) / real (article_count a))"
    using avg_indicator [OF ne, of "''positive''"] cnt by (simp add: a agg_def)
  show "negative_ratio a =
        Some (real (length (filter (\<lambda>r. sentiment_label r = ''negative'') ?g)) / real (article_count a))"
    using avg_indicator [OF ne, of "''negative''"] cnt by (simp add: a agg_def)
  show av: "avg_sentiment a = avg (map overall_sentiment ?g)" by (simp add: a agg_def)
  show "(\<forall>r\<in>set ?g. overall_sentiment r \<noteq> None) \<longrightarrow>
         avg_sentiment a =
           Some (sum_list (map (\<lambda>r. the (overall_sentiment r)) ?g) / real (article_count a))"
  proof
    assume "\<forall>r\<in>set ?g. overall_sentiment r \<noteq> None"
    then have "non_null (map overall_sentiment ?g) = map (\<lambda>r. the (overall_sentiment r)) ?g"
      by (simp add: non_null_all_present comp_def)
    then show "avg_sentiment a =
           Some (sum_list (map (\<lambda>r. the (overall_sentiment r)) ?g) / real (article_count a))"
      using ne cnt av by (simp add: avg_def)
  qed
qed

lemma mset_non_null:
  "mset (non_null xs) = image_mset the (filter_mset (\<lambda>x. x \<noteq> None) (mset xs))"
  by (induction xs rule: non_null.induct) simp_all

lemma avg_mset:
  assumes "mset xs = mset ys"
  shows "avg xs = avg ys"
proof -
  from assms have m: "mset (non_null xs) = mset (non_null ys)"
    by (simp add: mset_non_null)
  then have "sum_list (non_null xs) = sum_list (non_null ys)"
    by (metis sum_mset_sum_list)
  moreover from m have "length (non_null xs) = length (non_null ys)"
    by (metis size_mset)
  moreover from m have "(non_null xs = []) = (non_null ys = [])"
    by (metis mset_zero_iff)
  ultimately show ?thesis by (simp add: avg_def)
qed

lemma agg_mset:
  assumes "mset g = mset h"
  shows "agg c g = agg c h"
proof -
  have "\<And>f. mset (map f g) = mset (map f h)" using assms by simp
  then have "\<And>f. avg (map f g) = avg (map f h)" by (rule avg_mset)
  moreover have "length g = length h" using assms by (metis size_mset)
  ultimately show ?thesis by (simp add: agg_def)
qed

lemma company_sentiment_mset:
  assumes "mset sdf = mset sdf'"
  shows "set (company_sentiment sdf) = set (company_sentiment sdf')"
proof -
  from assms have s: "set sdf = set sdf'" by (rule mset_eq_setD)
  have "\<And>c. mset (group_of c sdf) = mset (group_of c sdf')"
    using assms by (simp add: group_of_def)
  then have "\<And>c. agg c (group_of c sdf) = agg c (group_of c sdf')"
    by (rule agg_mset)
  then show ?thesis
    using s by (simp add: company_sentiment_eq)
qed

lemma round_half_even_of_int: "round_half_even (of_int n) = n"
  by (simp add: round_half_even_def)

lemma exponent_from_eq:
  assumes "2 powi e' \<le> \<bar>x\<bar>" and "\<bar>x\<bar> < 2 powi (e' + 1)" and "\<bar>e' - e\<bar> \<le> int fuel"
  shows "exponent_from fuel e x = e'"
  using assms(3)
proof (induction fuel arbitrary: e)
  case 0
  then show ?case by simp
next
  case (Suc fuel)
  have up: "a \<le> b \<Longrightarrow> (2::real) powi a \<le> 2 powi b" for a b
    by (rule power_int_increasing) simp_all
  show ?case
  proof (cases "\<bar>x\<bar> < 2 powi e")
    case True
    have "e' < e"
    proof (rule ccontr)
      assume "\<not> e' < e"
      then have "(2::real) powi e \<le> 2 powi e'" by (intro up) simp
      with assms(1) True show False by linarith
    qed
    with Suc.prems have "\<bar>e' - (e - 1)\<bar> \<le> int fuel" by simp
    then have "exponent_from fuel (e - 1) x = e'" by (rule Suc.IH)
    with True show ?thesis by simp
  next
    case False
    show ?thesis
    proof (cases "2 powi (e + 1) \<le> \<bar>x\<bar>")
      case True
      have "e < e'"
      proof (rule ccontr)
        assume "\<not> e < e'"
        then have "(2::real) powi (e' + 1) \<le> 2 powi (e + 1)" by (intro up) simp
        with assms(2) True show False by linarith
      qed
      with Suc.prems have "\<bar>e' - (e + 1)\<bar> \<le> int fuel" by simp
      then have "exponent_from fuel (e + 1) x = e'" by (rule Suc.IH)
      with False True show ?thesis by simp
    next
      case high: False
      have "e \<le> e'"
      proof (rule ccontr)
        assume "\<not> e \<le> e'"
        then have "(2::real) powi (e' + 1) \<le> 2 powi e" by (intro up) simp
        with assms(2) False show False by linarith
      qed
      moreover have "e' \<le> e"
      proof (rule ccontr)
        assume "\<not> e' \<le> e"
        then have "(2::real) powi (e + 1) \<le> 2 powi e'" by (intro up) simp
        with assms(1) high show False by linarith
      qed
      ultimately show ?thesis using False high by simp
    qed
  qed
qed

lemma exponent_eq:
  assumes "2 powi e \<le> \<bar>x\<bar>" and "\<bar>x\<bar> < 2 powi (e + 1)" and "\<bar>e\<bar> \<le> 1100"
  shows "exponent x = e"
proof -
  have "\<bar>e - 0\<bar> \<le> int 1100" using assms(3) by simp
  with assms(1,2) show ?thesis unfolding exponent_def by (rule exponent_from_eq)
qed

lemma exponent_floor_log:
  assumes "2 powi (- 1100) \<le> \<bar>x\<bar>" and "\<bar>x\<bar> < 2 powi 1101"
  shows "exponent x = \<lfloor>log 2 \<bar>x\<bar>\<rfloor>"
proof -
  define e where "e = \<lfloor>log 2 \<bar>x\<bar>\<rfloor>"
  have "(0::real) < 2 powi (- 1100)" by simp
  with assms(1) have pos: "0 < \<bar>x\<bar>" by linarith
  have p: "(2::real) powr real_of_int n = 2 powi n" for n
    by (rule powr_real_of_int') simp_all
  have "(\<lfloor>log 2 \<bar>x\<bar>\<rfloor> = e) =
      (2 powr real_of_int e \<le> \<bar>x\<bar> \<and> \<bar>x\<bar> < 2 powr real_of_int (e + 1))"
    using pos by (rule floor_log_eq_powr_iff) simp
  then have b: "2 powi e \<le> \<bar>x\<bar>" "\<bar>x\<bar> < 2 powi (e + 1)"
    unfolding p by (simp_all add: e_def)
  have up: "a \<le> b \<Longrightarrow> (2::real) powi a \<le> 2 powi b" for a b
    by (rule power_int_increasing) simp_all
  have "- 1100 \<le> e"
  proof (rule ccontr)
    assume "\<not> - 1100 \<le> e"
    then have "(2::real) powi (e + 1) \<le> 2 powi (- 1100)" by (intro up) simp
    with assms(1) b(2) show False by linarith
  qed
  moreover have "e \<le> 1100"
  proof (rule ccontr)
    assume "\<not> e \<le> 1100"
    then have "(2::real) powi 1101 \<le> 2 powi e" by (intro up) simp
    with assms(2) b(1) show False by linarith
  qed
  ultimately have "\<bar>e\<bar> \<le> 1100" by simp
  with b have "exponent x = e" by (rule exponent_eq)
  then show ?thesis by (simp only: e_def)
qed

lemma round_double_eval:
  assumes "2 powi e \<le> \<bar>x\<bar>" and "\<bar>x\<bar> < 2 powi (e + 1)" and "- 1022 \<le> e" and "e \<le> 1100"
  shows "round_double x = of_int (round_half_even (x / 2 powi (e - 52))) * 2 powi (e - 52)"
proof -
  have "\<bar>e\<bar> \<le> 1100" using assms(3,4) by simp
  with assms(1,2) have e: "exponent x = e" by (rule exponent_eq)
  have "(0::real) < 2 powi e" by simp
  with assms(1) have "0 < \<bar>x\<bar>" by linarith
  then have "x \<noteq> 0" by simp
  moreover have "max (e - 52) (- 1074) = e - 52" using assms(3) by simp
  ultimately show ?thesis by (simp add: round_double_def ulp_def e)
qed

lemma tenths:
  "round_double 0.1 = 3602879701896397 / 2 ^ 55"
  "round_double 0.2 = 3602879701896397 / 2 ^ 54"
  "round_double 0.3 = 5404319552844595 / 2 ^ 54"
  by (simp_all add: round_double_eval [where e = "- 4"] round_double_eval [where e = "- 3"]
      round_double_eval [where e = "- 2"] round_half_even_def)

lemma round_double_of_nat:
  assumes "k < 2 ^ 53"
  shows "round_double (real k) = real k"
proof (cases "k = 0")
  case True
  then show ?thesis by (simp add: round_double_def)
next
  case False
  define e where "e = \<lfloor>log 2 (real k)\<rfloor>"
  have k1: "1 \<le> real k" using False by simp
  then have "0 \<le> log 2 (real k)" by simp
  then have e0: "0 \<le> e" by (simp add: e_def)
  have "real k < 2 ^ 53" using assms by (metis of_nat_less_iff of_nat_numeral of_nat_power)
  then have "real k < 2 powr 53" by simp
  moreover have "(real k < 2 powr 53) = (log 2 (real k) < 53)"
    by (rule less_powr_iff) (use k1 in simp_all)
  ultimately have "log 2 (real k) < 53" by (simp only:)
  then have e52: "e \<le> 52"
    by (simp add: e_def floor_less_iff)
  have p: "(2::real) powr real_of_int n = 2 powi n" for n
    by (rule powr_real_of_int') simp_all
  have "(\<lfloor>log 2 (real k)\<rfloor> = e) =
      (2 powr real_of_int e \<le> real k \<and> real k < 2 powr real_of_int (e + 1))"
    by (rule floor_log_eq_powr_iff) (use k1 in simp_all)
  then have "2 powi e \<le> real k" "real k < 2 powi (e + 1)"
    unfolding p by (simp_all add: e_def)
  then have "2 powi e \<le> \<bar>real k\<bar>" "\<bar>real k\<bar> < 2 powi (e + 1)"
    by simp_all
  moreover have "\<bar>e\<bar> \<le> 1100" using e0 e52 by simp
  ultimately have ex: "exponent (real k) = e" by (rule exponent_eq)
  define m where "m = nat (52 - e)"
  have "max (e - 52) (- 1074) = - int m" using e0 e52 by (simp add: m_def)
  then have u: "ulp (real k) = 1 / 2 ^ m"
    unfolding ulp_def ex by (simp add: power_int_minus field_simps)
  have "real k / ulp (real k) = of_int (int k * 2 ^ m)" by (simp add: u)
  then have "round_half_even (real k / ulp (real k)) = int k * 2 ^ m"
    by (simp only: round_half_even_of_int)
  then show ?thesis using False by (simp add: round_double_def u)
qed

lemma foldl_indicator:
  assumes "a + length xs < 2 ^ 53"
  shows "foldl (\<lambda>s x. round_double (s + x)) (real a) (map (\<lambda>r. if P r then 1 else 0) xs) =
           real (a + length (filter P xs))"
  using assms
proof (induction xs arbitrary: a)
  case Nil
  show ?case by simp
next
  case (Cons x xs)
  show ?case
  proof (cases "P x")
    case True
    have "Suc a < 2 ^ 53" using Cons.prems by simp
    then have "round_double (real (Suc a)) = real (Suc a)" by (rule round_double_of_nat)
    then have r: "round_double (real a + 1) = real (Suc a)" by (simp add: add.commute)
    have "Suc a + length xs < 2 ^ 53" using Cons.prems by simp
    then have "foldl (\<lambda>s x. round_double (s + x)) (real (Suc a)) (map (\<lambda>r. if P r then 1 else 0) xs) =
           real (Suc a + length (filter P xs))" by (rule Cons.IH)
    then show ?thesis using True r by simp
  next
    case False
    have "a < 2 ^ 53" using Cons.prems by simp
    then have r: "round_double (real a) = real a" by (rule round_double_of_nat)
    have "a + length xs < 2 ^ 53" using Cons.prems by simp
    then have "foldl (\<lambda>s x. round_double (s + x)) (real a) (map (\<lambda>r. if P r then 1 else 0) xs) =
           real (a + length (filter P xs))" by (rule Cons.IH)
    then show ?thesis using False r by simp
  qed
qed

lemma sum_double_indicator:
  assumes "length g < 2 ^ 53"
  shows "sum_double (map (\<lambda>r. if P r then 1 else 0) g) = real (length (filter P g))"
proof -
  have "0 + length g < 2 ^ 53" using assms by simp
  then have "foldl (\<lambda>s x. round_double (s + x)) (real 0) (map (\<lambda>r. if P r then 1 else 0) g) =
      real (0 + length (filter P g))"
    by (rule foldl_indicator)
  then show ?thesis by (simp add: sum_double_def)
qed

lemma avg_double_indicator:
  assumes "g \<noteq> []" and "length g < 2 ^ 53"
  shows "avg_double (map (indicator lab) g) =
           Some (round_double (real (length (filter (\<lambda>r. sentiment_label r = lab) g)) / real (length g)))"
proof -
  have "map (indicator lab) g =
          map (\<lambda>r. Some (if sentiment_label r = lab then 1 else 0)) g"
    by (simp add: indicator_def when_otherwise_def)
  then have "non_null (map (indicator lab) g) =
          map (\<lambda>r. if sentiment_label r = lab then 1 else 0) g"
    by (simp only: non_null_Some)
  then show ?thesis
    using assms by (simp add: avg_double_def sum_double_indicator)
qed

lemma avg_double_indicator_mset:
  assumes "mset g = mset h" and "length g < 2 ^ 53"
  shows "avg_double (map (indicator lab) g) = avg_double (map (indicator lab) h)"
proof (cases "g = []")
  case True
  with assms(1) have "h = []" by simp
  with True show ?thesis by simp
next
  case False
  with assms(1) have h: "h \<noteq> []" by auto
  have len: "length g = length h" using assms(1) by (metis size_mset)
  have "mset (filter (\<lambda>r. sentiment_label r = lab) g) = mset (filter (\<lambda>r. sentiment_label r = lab) h)"
    using assms(1) by simp
  then have "length (filter (\<lambda>r. sentiment_label r = lab) g) =
      length (filter (\<lambda>r. sentiment_label r = lab) h)"
    by (metis size_mset)
  moreover have "length h < 2 ^ 53" using assms(2) len by simp
  ultimately show ?thesis
    using False h assms(2) len by (simp add: avg_double_indicator)
qed

lemma avg_double_None_mset:
  assumes "mset xs = mset ys"
  shows "(avg_double xs = None) = (avg_double ys = None)"
proof -
  from assms have "mset (non_null xs) = mset (non_null ys)"
    by (simp add: mset_non_null)
  then have "(non_null xs = []) = (non_null ys = [])"
    by (metis mset_zero_iff)
  then show ?thesis by (simp add: avg_double_def)
qed

lemma without_avg_value_mset:
  assumes "mset g = mset h" and "length g < 2 ^ 53"
  shows "without_avg_value (agg_double c g) = without_avg_value (agg_double c h)"
proof -
  have "length g = length h" using assms(1) by (metis size_mset)
  moreover have "\<And>lab. avg_double (map (indicator lab) g) = avg_double (map (indicator lab) h)"
    using assms by (rule avg_double_indicator_mset)
  moreover have "mset (map overall_sentiment g) = mset (map overall_sentiment h)"
    using assms(1) by simp
  then have "(avg_double (map overall_sentiment g) = None) =
      (avg_double (map overall_sentiment h) = None)"
    by (rule avg_double_None_mset)
  ultimately show ?thesis by (simp add: without_avg_value_def agg_double_def)
qed

lemma company_sentiment_double_eq:
  "company_sentiment_double sdf =
     map (\<lambda>c. agg_double c (group_of c sdf)) (remdups (map company sdf))"
  by (simp add: company_sentiment_double_def group_by_company_def comp_def)

text \<open>
  C7, as the code has it. Two batches with the same articles in any order give a
  row to the same companies, with the same \<open>article_count\<close>, \<open>positive_ratio\<close> and
  \<open>negative_ratio\<close> (for fewer than \<open>2 ^ 53\<close> articles, where the counts are exact in
  doubles) and an \<open>avg_sentiment\<close> that is null in both or in neither. The value of
  \<open>avg_sentiment\<close> is the same in exact arithmetic only: the double sum is accumulated
  in the order of the rows and rounded at each step, so that in doubles it may
  differ in its last bits.
\<close>

theorem aggregation_order_independent_up_to_rounding:
  assumes "mset sdf = mset sdf'" and "length sdf < 2 ^ 53"
  shows "set (map without_avg_value (company_sentiment_double sdf)) =
           set (map without_avg_value (company_sentiment_double sdf')) \<and>
         set (company_sentiment sdf) = set (company_sentiment sdf')"
proof
  from assms(1) have s: "set sdf = set sdf'" by (rule mset_eq_setD)
  have "without_avg_value (agg_double c (group_of c sdf)) =
        without_avg_value (agg_double c (group_of c sdf'))" for c
  proof -
    have "mset (group_of c sdf) = mset (group_of c sdf')"
      using assms(1) by (simp add: group_of_def)
    moreover have "length (group_of c sdf) \<le> length sdf"
      by (simp add: group_of_def)
    with assms(2) have "length (group_of c sdf) < 2 ^ 53" by simp
    ultimately show ?thesis by (rule without_avg_value_mset)
  qed
  then show "set (map without_avg_value (company_sentiment_double sdf)) =
      set (map without_avg_value (company_sentiment_double sdf'))"
    using s by (simp add: company_sentiment_double_eq comp_def)
  show "set (company_sentiment sdf) = set (company_sentiment sdf')"
    using assms(1) by (rule company_sentiment_mset)
qed

lemmas aggregate_defs =
  company_sentiment_eq group_of_def agg_def avg_def indicator_def when_otherwise_def
  with_columns_def news_def overall_expr_simps label_expr_Some label_expr_None

lemma company_sentiment_sample:
  "company_sentiment sample_sdf = [globex_aggregate, acme_aggregate]"
  by (simp add: sample_sdf_def acme_aggregate_def globex_aggregate_def aggregate_defs)

lemma company_sentiment_permuted:
  "company_sentiment permuted_sdf = [acme_aggregate, globex_aggregate]"
  by (simp add: permuted_sdf_def sample_sdf_def acme_aggregate_def globex_aggregate_def
      aggregate_defs)

lemma mset_permuted: "mset permuted_sdf = mset sample_sdf"
  by (simp add: permuted_sdf_def sample_sdf_def)

text \<open>
  The sample batch: ACME has three articles, one of them without a value, GLOBEX
  one.
\<close>

theorem aggregate_per_company_witness:
  "company_sentiment sample_sdf = [globex_aggregate, acme_aggregate] \<and>
   group_of (Some ''ACME'') sample_sdf = [sample_sdf ! 0, sample_sdf ! 2, sample_sdf ! 3] \<and>
   map overall_sentiment (group_of (Some ''ACME'') sample_sdf) = [Some 0.6, Some 0, None] \<and>
   map sentiment_label (group_of (Some ''ACME'') sample_sdf) = [''positive'', ''neutral'', ''neutral''] \<and>
   article_count acme_aggregate = 3 \<and>
   avg_sentiment acme_aggregate = Some ((0.6 + 0) / 2) \<and>
   positive_ratio acme_aggregate = Some (1 / 3) \<and>
   negative_ratio acme_aggregate = Some (0 / 3) \<and>
   group_of (Some ''GLOBEX'') sample_sdf = [sample_sdf ! 1] \<and>
   map overall_sentiment (group_of (Some ''GLOBEX'') sample_sdf) = [Some (- 0.4)] \<and>
   avg_sentiment globex_aggregate = Some (- 0.4 / 1)"
proof -
  have cs: "company_sentiment sample_sdf = [globex_aggregate, acme_aggregate]"
    by (rule company_sentiment_sample)
  have ga: "group_of (Some ''ACME'') sample_sdf = [sample_sdf ! 0, sample_sdf ! 2, sample_sdf ! 3]"
    and gg: "group_of (Some ''GLOBEX'') sample_sdf = [sample_sdf ! 1]"
    by (simp_all add: sample_sdf_def group_of_def with_columns_def news_def)
  have oa: "map overall_sentiment [sample_sdf ! 0, sample_sdf ! 2, sample_sdf ! 3] = [Some 0.6, Some 0, None]"
    and la: "map sentiment_label [sample_sdf ! 0, sample_sdf ! 2, sample_sdf ! 3] = [''positive'', ''neutral'', ''neutral'']"
    and og: "map overall_sentiment [sample_sdf ! 1] = [Some (- 0.4)]"
    by (simp_all add: sample_sdf_def with_columns_def overall_expr_simps label_expr_Some label_expr_None)
  have ka: "agg_company acme_aggregate = Some ''ACME''"
    and kg: "agg_company globex_aggregate = Some ''GLOBEX''"
    by (simp_all add: acme_aggregate_def globex_aggregate_def)
  let ?P = "\<lambda>a. article_count a = length (group_of (agg_company a) sample_sdf) \<and>
      positive_ratio a =
        Some (real (length (filter (\<lambda>r. sentiment_label r = ''positive'') (group_of (agg_company a) sample_sdf)))
              / real (article_count a)) \<and>
      negative_ratio a =
        Some (real (length (filter (\<lambda>r. sentiment_label r = ''negative'') (group_of (agg_company a) sample_sdf)))
              / real (article_count a)) \<and>
      avg_sentiment a = avg (map overall_sentiment (group_of (agg_company a) sample_sdf)) \<and>
      ((\<forall>r\<in>set (group_of (agg_company a) sample_sdf). overall_sentiment r \<noteq> None) \<longrightarrow>
         avg_sentiment a =
           Some (sum_list (map (\<lambda>r. the (overall_sentiment r)) (group_of (agg_company a) sample_sdf))
                 / real (article_count a)))"
  from aggregate_per_company [of sample_sdf]
  have all: "\<forall>a\<in>set [globex_aggregate, acme_aggregate]. ?P a"
    unfolding cs by blast
  have acme: "?P acme_aggregate" by (rule bspec [OF all]) simp
  have globex: "?P globex_aggregate" by (rule bspec [OF all]) simp
  have pa: "filter (\<lambda>r. sentiment_label r = ''positive'') [sample_sdf ! 0, sample_sdf ! 2, sample_sdf ! 3] = [sample_sdf ! 0]"
    and na: "filter (\<lambda>r. sentiment_label r = ''negative'') [sample_sdf ! 0, sample_sdf ! 2, sample_sdf ! 3] = []"
    using la by simp_all
  from acme have a1: "article_count acme_aggregate = 3"
    unfolding ka ga by simp
  from acme have a2: "positive_ratio acme_aggregate = Some (1 / 3)"
    and a3: "negative_ratio acme_aggregate = Some (0 / 3)"
    unfolding ka ga pa na a1 by simp_all
  from acme have a4: "avg_sentiment acme_aggregate = Some ((0.6 + 0) / 2)"
    unfolding ka ga oa by (simp add: avg_def)
  from globex have "article_count globex_aggregate = 1"
    unfolding kg gg by simp
  with globex og have g1: "avg_sentiment globex_aggregate = Some (- 0.4 / 1)"
    unfolding kg gg by (simp add: avg_def)
  from cs ga gg oa la og a1 a2 a3 a4 g1 show ?thesis by simp
qed

lemma round_double_zero: "round_double 0 = 0"
  by (simp add: round_double_def)

lemma round_double_one: "round_double 1 = 1"
  using round_double_of_nat [of 1] by simp

lemmas double_aggregate_defs =
  company_sentiment_double_eq group_of_def agg_double_def avg_double_def sum_double_def
  indicator_def when_otherwise_def with_columns_def news_def overall_expr_simps
  label_expr_Some label_expr_None

lemma without_avg_value_sample:
  "map without_avg_value (company_sentiment_double sample_sdf) =
     [(Some ''GLOBEX'', 1, Some 0, Some 1, False),
      (Some ''ACME'', 3, Some (6004799503160661 / 2 ^ 54), Some 0, False)]"
  by (simp add: sample_sdf_def without_avg_value_def double_aggregate_defs round_double_zero
      round_double_one round_double_eval [where e = "- 2"] round_half_even_def)

lemma without_avg_value_permuted:
  "map without_avg_value (company_sentiment_double permuted_sdf) =
     [(Some ''ACME'', 3, Some (6004799503160661 / 2 ^ 54), Some 0, False),
      (Some ''GLOBEX'', 1, Some 0, Some 1, False)]"
  by (simp add: permuted_sdf_def sample_sdf_def without_avg_value_def double_aggregate_defs
      round_double_zero round_double_one round_double_eval [where e = "- 2"] round_half_even_def)

text \<open>
  The sample batch and a permutation of it: the rows without the value of
  \<open>avg_sentiment\<close> are the same in doubles (a third is the double nearest to it), and
  all of the row is the same in exact arithmetic.
\<close>

theorem aggregation_order_independent_up_to_rounding_witness:
  "mset permuted_sdf = mset sample_sdf \<and>
   length permuted_sdf < 2 ^ 53 \<and>
   map without_avg_value (company_sentiment_double sample_sdf) =
     [(Some ''GLOBEX'', 1, Some 0, Some 1, False),
      (Some ''ACME'', 3, Some (6004799503160661 / 2 ^ 54), Some 0, False)] \<and>
   map without_avg_value (company_sentiment_double permuted_sdf) =
     [(Some ''ACME'', 3, Some (6004799503160661 / 2 ^ 54), Some 0, False),
      (Some ''GLOBEX'', 1, Some 0, Some 1, False)] \<and>
   set (map without_avg_value (company_sentiment_double permuted_sdf)) =
     set (map without_avg_value (company_sentiment_double sample_sdf)) \<and>
   company_sentiment sample_sdf = [globex_aggregate, acme_aggregate] \<and>
   company_sentiment permuted_sdf = [acme_aggregate, globex_aggregate] \<and>
   set (company_sentiment permuted_sdf) = set (company_sentiment sample_sdf)"
proof -
  have len: "length permuted_sdf < 2 ^ 53"
    by (simp add: permuted_sdf_def)
  from aggregation_order_independent_up_to_rounding [OF mset_permuted len]
  have "set (map without_avg_value (company_sentiment_double permuted_sdf)) =
          set (map without_avg_value (company_sentiment_double sample_sdf))"
    and "set (company_sentiment permuted_sdf) = set (company_sentiment sample_sdf)"
    by simp_all
  with mset_permuted len without_avg_value_sample without_avg_value_permuted
    company_sentiment_sample company_sentiment_permuted
  show ?thesis by (simp only: simp_thms)
qed

text \<open>The two sums and their division by the count, step by step.\<close>

lemma double_values:
  "round_double (3602879701896397 / 2 ^ 55) = 3602879701896397 / 2 ^ 55"
  "round_double (3602879701896397 / 2 ^ 55 + 3602879701896397 / 2 ^ 54) = 1351079888211149 / 2 ^ 52"
  "round_double (1351079888211149 / 2 ^ 52 + 5404319552844595 / 2 ^ 54) = 1351079888211149 / 2 ^ 51"
  "round_double (1351079888211149 / 2 ^ 51 / 3) = 7205759403792795 / 2 ^ 55"
  "round_double (5404319552844595 / 2 ^ 54) = 5404319552844595 / 2 ^ 54"
  "round_double (5404319552844595 / 2 ^ 54 + 3602879701896397 / 2 ^ 54) = 1 / 2"
  "round_double (1 / 2 + 3602879701896397 / 2 ^ 55) = 5404319552844595 / 2 ^ 53"
  "round_double (5404319552844595 / 2 ^ 53 / 3) = 7205759403792793 / 2 ^ 55"
  by (simp_all add: round_double_eval [where e = "- 4"] round_double_eval [where e = "- 3"]
      round_double_eval [where e = "- 2"] round_double_eval [where e = "- 1"] round_half_even_def)

lemma fifths:
  "round_double 0.20000000000000004 = 7205759403792795 / 2 ^ 55"
  "round_double 0.19999999999999998 = 7205759403792793 / 2 ^ 55"
  by (simp_all add: round_double_eval [where e = "- 3"] round_half_even_def)

lemma tenths_overall_double:
  "map overall_sentiment tenths_sdf =
     [Some (round_double 0.1), Some (round_double 0.2), Some (round_double 0.3)]"
  by (simp add: tenths_sdf_def with_columns_def overall_expr_simps)

lemma tenths_overall:
  "map overall_sentiment tenths_sdf =
     [Some (3602879701896397 / 2 ^ 55), Some (3602879701896397 / 2 ^ 54),
      Some (5404319552844595 / 2 ^ 54)]"
  by (simp only: tenths_overall_double tenths)

lemma company_sentiment_double_tenths:
  "company_sentiment_double tenths_sdf = [agg_double (Some ''ACME'') tenths_sdf]"
  "company_sentiment_double (rev tenths_sdf) = [agg_double (Some ''ACME'') (rev tenths_sdf)]"
  by (simp_all add: company_sentiment_double_eq group_of_def tenths_sdf_def with_columns_def
      news_def)

lemma avg_sentiment_agg_double:
  "avg_sentiment (agg_double c g) = avg_double (map overall_sentiment g)"
  by (simp add: agg_double_def)

lemma avg_double_tenths:
  "avg_double (map overall_sentiment tenths_sdf) = Some (7205759403792795 / 2 ^ 55)"
  "avg_double (rev (map overall_sentiment tenths_sdf)) = Some (7205759403792793 / 2 ^ 55)"
  unfolding tenths_overall
  by (simp_all add: avg_double_def sum_double_def round_double_eval [where e = "- 4"]
      round_double_eval [where e = "- 3"] round_double_eval [where e = "- 2"]
      round_double_eval [where e = "- 1"] round_half_even_def)

text \<open>
  Three articles of one company with the overall sentiments 0.1, 0.2 and 0.3, and the
  same articles in the reverse order: the \<open>avg_sentiment\<close> of the company is the
  double 0.20000000000000004 for the first and 0.19999999999999998 for the second.
\<close>

theorem summation_order_changes_avg_sentiment_counterexample:
  "mset (rev tenths_sdf) = mset tenths_sdf \<and>
   map overall_sentiment tenths_sdf =
     [Some (round_double 0.1), Some (round_double 0.2), Some (round_double 0.3)] \<and>
   map avg_sentiment (company_sentiment_double tenths_sdf) = [Some (7205759403792795 / 2 ^ 55)] \<and>
   map avg_sentiment (company_sentiment_double (rev tenths_sdf)) = [Some (7205759403792793 / 2 ^ 55)] \<and>
   round_double 0.20000000000000004 = 7205759403792795 / 2 ^ 55 \<and>
   round_double 0.19999999999999998 = 7205759403792793 / 2 ^ 55 \<and>
   set (company_sentiment_double (rev tenths_sdf)) \<noteq> set (company_sentiment_double tenths_sdf)"
proof -
  have a: "map avg_sentiment (company_sentiment_double tenths_sdf) = [Some (7205759403792795 / 2 ^ 55)]"
    by (simp only: company_sentiment_double_tenths list.map avg_sentiment_agg_double
        avg_double_tenths)
  have b: "map avg_sentiment (company_sentiment_double (rev tenths_sdf)) = [Some (7205759403792793 / 2 ^ 55)]"
    by (simp only: company_sentiment_double_tenths list.map avg_sentiment_agg_double
        rev_map [symmetric] avg_double_tenths)
  have "map avg_sentiment (company_sentiment_double (rev tenths_sdf)) \<noteq>
        map avg_sentiment (company_sentiment_double tenths_sdf)"
    unfolding a b by simp
  then have "avg_sentiment ` set (company_sentiment_double (rev tenths_sdf)) \<noteq>
        avg_sentiment ` set (company_sentiment_double tenths_sdf)"
    unfolding a b set_map [symmetric] by simp
  then have ne: "set (company_sentiment_double (rev tenths_sdf)) \<noteq> set (company_sentiment_double tenths_sdf)"
    by auto
  have "mset (rev tenths_sdf) = mset tenths_sdf" by simp
  with tenths_overall_double a b fifths ne show ?thesis by (simp only: simp_thms)
qed

section \<open>The most positive and the most negative articles\<close>

lemma mset_insert_by: "mset (insert_by precedes r ss) = add_mset r (mset ss)"
  by (induction ss) simp_all

lemma mset_order_by: "mset (order_by precedes sdf) = mset sdf"
  by (induction sdf) (simp_all add: order_by_def mset_insert_by)

lemma set_insert_by: "set (insert_by precedes r ss) = insert r (set ss)"
  by (induction ss) auto

lemma sorted_insert_by:
  assumes total: "\<And>a b. precedes a b \<or> precedes b a"
    and trans: "\<And>a b c. precedes a b \<Longrightarrow> precedes b c \<Longrightarrow> precedes a c"
    and sorted: "sorted_wrt (\<lambda>r s. precedes (overall_sentiment r) (overall_sentiment s)) ss"
  shows "sorted_wrt (\<lambda>r s. precedes (overall_sentiment r) (overall_sentiment s)) (insert_by precedes r ss)"
  using sorted
proof (induction ss)
  case Nil
  then show ?case by simp
next
  case (Cons s ss)
  show ?case
  proof (cases "precedes (overall_sentiment r) (overall_sentiment s)")
    case True
    with Cons.prems trans show ?thesis by auto
  next
    case False
    with total have "precedes (overall_sentiment s) (overall_sentiment r)" by blast
    with False Cons show ?thesis by (auto simp: set_insert_by)
  qed
qed

lemma sorted_order_by:
  assumes total: "\<And>a b. precedes a b \<or> precedes b a"
    and trans: "\<And>a b c. precedes a b \<Longrightarrow> precedes b c \<Longrightarrow> precedes a c"
  shows "sorted_wrt (\<lambda>r s. precedes (overall_sentiment r) (overall_sentiment s)) (order_by precedes sdf)"
proof (induction sdf)
  case Nil
  show ?case by (simp add: order_by_def)
next
  case (Cons r sdf)
  have "order_by precedes (r # sdf) = insert_by precedes r (order_by precedes sdf)"
    by (simp add: order_by_def)
  with sorted_insert_by [of precedes, OF total trans Cons.IH] show ?case by simp
qed

lemma desc_total: "desc_nulls_last a b \<or> desc_nulls_last b a"
  by (auto simp: desc_nulls_last_def split: option.splits)

lemma desc_trans: "desc_nulls_last a b \<Longrightarrow> desc_nulls_last b c \<Longrightarrow> desc_nulls_last a c"
  by (auto simp: desc_nulls_last_def split: option.splits)

lemma asc_total: "asc_nulls_first a b \<or> asc_nulls_first b a"
  by (auto simp: asc_nulls_first_def split: option.splits)

lemma asc_trans: "asc_nulls_first a b \<Longrightarrow> asc_nulls_first b c \<Longrightarrow> asc_nulls_first a c"
  by (auto simp: asc_nulls_first_def split: option.splits)

lemma five_rows:
  assumes "map overall_sentiment sdf = [o1, o2, o3, o4, o5]"
  shows "sdf = [sdf ! 0, sdf ! 1, sdf ! 2, sdf ! 3, sdf ! 4] \<and>
         overall_sentiment (sdf ! 0) = o1 \<and> overall_sentiment (sdf ! 1) = o2 \<and>
         overall_sentiment (sdf ! 2) = o3 \<and> overall_sentiment (sdf ! 3) = o4 \<and>
         overall_sentiment (sdf ! 4) = o5"
proof -
  from assms obtain a b c d e where "sdf = [a, b, c, d, e]"
    by (auto simp: map_eq_Cons_conv)
  with assms show ?thesis by simp
qed

text \<open>
  C8. The most positive articles are the first three of the batch sorted by
  \<open>overall_sentiment\<close> descending, the most negative the first three of the batch
  sorted ascending. On five articles with the values 0.9, 0.1, -0.8, 0.5, -0.2 the
  most positive are those with 0.9, 0.5, 0.1 and the most negative those with
  -0.8, -0.2, 0.1, in these orders.
\<close>

theorem extremal_selector:
  "(\<exists>sorted. mset sorted = mset sdf \<and>
      sorted_wrt (\<lambda>r s. desc_nulls_last (overall_sentiment r) (overall_sentiment s)) sorted \<and>
      most_positive sdf = take 3 (map select_cols sorted)) \<and>
   (\<exists>sorted. mset sorted = mset sdf \<and>
      sorted_wrt (\<lambda>r s. asc_nulls_first (overall_sentiment r) (overall_sentiment s)) sorted \<and>
      most_negative sdf = take 3 (map select_cols sorted)) \<and>
   (map overall_sentiment sdf = [Some 0.9, Some 0.1, Some (- 0.8), Some 0.5, Some (- 0.2)] \<longrightarrow>
      most_positive sdf = map select_cols [sdf ! 0, sdf ! 3, sdf ! 1] \<and>
      map (\<lambda>(c, t, ov). ov) (most_positive sdf) = [Some 0.9, Some 0.5, Some 0.1] \<and>
      most_negative sdf = map select_cols [sdf ! 2, sdf ! 4, sdf ! 1] \<and>
      map (\<lambda>(c, t, ov). ov) (most_negative sdf) = [Some (- 0.8), Some (- 0.2), Some 0.1])"
proof (intro conjI impI)
  show "\<exists>sorted. mset sorted = mset sdf \<and>
      sorted_wrt (\<lambda>r s. desc_nulls_last (overall_sentiment r) (overall_sentiment s)) sorted \<and>
      most_positive sdf = take 3 (map select_cols sorted)"
    using mset_order_by [of desc_nulls_last sdf]
      sorted_order_by [of desc_nulls_last sdf, OF desc_total desc_trans]
    by (auto simp: most_positive_def)
  show "\<exists>sorted. mset sorted = mset sdf \<and>
      sorted_wrt (\<lambda>r s. asc_nulls_first (overall_sentiment r) (overall_sentiment s)) sorted \<and>
      most_negative sdf = take 3 (map select_cols sorted)"
    using mset_order_by [of asc_nulls_first sdf]
      sorted_order_by [of asc_nulls_first sdf, OF asc_total asc_trans]
    by (auto simp: most_negative_def)
next
  assume "map overall_sentiment sdf = [Some 0.9, Some 0.1, Some (- 0.8), Some 0.5, Some (- 0.2)]"
  from five_rows [OF this] obtain a b c d e where sdf: "sdf = [a, b, c, d, e]"
    and ov: "overall_sentiment a = Some 0.9" "overall_sentiment b = Some 0.1"
      "overall_sentiment c = Some (- 0.8)" "overall_sentiment d = Some 0.5"
      "overall_sentiment e = Some (- 0.2)"
    by metis
  have pos: "order_by desc_nulls_last sdf = [a, d, b, e, c]"
    by (simp add: sdf order_by_def ov desc_nulls_last_def)
  have neg: "order_by asc_nulls_first sdf = [c, e, b, d, a]"
    by (simp add: sdf order_by_def ov asc_nulls_first_def)
  show "most_positive sdf = map select_cols [sdf ! 0, sdf ! 3, sdf ! 1]"
    by (simp add: most_positive_def pos) (simp add: sdf)
  show "map (\<lambda>(c, t, ov). ov) (most_positive sdf) = [Some 0.9, Some 0.5, Some 0.1]"
    by (simp add: most_positive_def pos select_cols_def ov)
  show "most_negative sdf = map select_cols [sdf ! 2, sdf ! 4, sdf ! 1]"
    by (simp add: most_negative_def neg) (simp add: sdf)
  show "map (\<lambda>(c, t, ov). ov) (most_negative sdf) = [Some (- 0.8), Some (- 0.2), Some 0.1]"
    by (simp add: most_negative_def neg select_cols_def ov)
qed

text \<open>
  A batch of five articles with these values, and what is shown for it.
\<close>

theorem extremal_selector_witness:
  "map overall_sentiment five_sdf = [Some 0.9, Some 0.1, Some (- 0.8), Some 0.5, Some (- 0.2)] \<and>
   most_positive five_sdf =
     [(Some ''ACME'', Some ''Record profit'', Some 0.9),
      (Some ''ACME'', Some ''Upgrade'', Some 0.5),
      (Some ''GLOBEX'', Some ''New office'', Some 0.1)] \<and>
   most_negative five_sdf =
     [(Some ''INITECH'', Some ''Fraud probe'', Some (- 0.8)),
      (Some ''GLOBEX'', Some ''Delay'', Some (- 0.2)),
      (Some ''GLOBEX'', Some ''New office'', Some 0.1)]"
proof -
  have ov: "map overall_sentiment five_sdf =
              [Some 0.9, Some 0.1, Some (- 0.8), Some 0.5, Some (- 0.2)]"
    by (simp add: five_sdf_def with_columns_def overall_expr_simps)
  from extremal_selector [of five_sdf] ov
  have "most_positive five_sdf = map select_cols [five_sdf ! 0, five_sdf ! 3, five_sdf ! 1]"
    and "most_negative five_sdf = map select_cols [five_sdf ! 2, five_sdf ! 4, five_sdf ! 1]"
    by blast+
  then show ?thesis
    using ov
    by (simp add: five_sdf_def select_cols_def with_columns_def news_def overall_expr_simps)
qed

section \<open>Persisting and the batch handler\<close>

lemma insert_accepted:
  assumes "ks t = Some rows" and "rej (insert_values row) = None"
  shows "session_execute rej (insert_query t (insert_values row)) ks =
           (ks(t \<mapsto> put_row (insert_values row) rows), Inr ())"
  using assms by (simp add: insert_query_def)

lemma insert_rejected:
  assumes "ks t = Some rows" and "rej (insert_values row) = Some e"
  shows "session_execute rej (insert_query t (insert_values row)) ks = (ks, Inl e)"
  using assms by (simp add: insert_query_def)

lemma insert_each_accepted:
  assumes "ks t = Some rows" and "\<forall>row\<in>set sdf. rej (insert_values row) = None"
  shows "insert_each rej t sdf ks = (ks(t \<mapsto> fold (\<lambda>row. put_row (insert_values row)) sdf rows), Inr ())"
  using assms
proof (induction sdf arbitrary: ks rows)
  case Nil
  then show ?case by (simp add: fun_upd_idem)
next
  case (Cons row sdf)
  from Cons.prems have ok: "rej (insert_values row) = None" by simp
  have step: "session_execute rej (insert_query t (insert_values row)) ks =
                (ks(t \<mapsto> put_row (insert_values row) rows), Inr ())"
    using Cons.prems(1) ok by (rule insert_accepted)
  have rest: "insert_each rej t sdf (ks(t \<mapsto> put_row (insert_values row) rows)) =
                (ks(t \<mapsto> fold (\<lambda>row. put_row (insert_values row)) sdf (put_row (insert_values row) rows)), Inr ())"
  proof -
    have "(ks(t \<mapsto> put_row (insert_values row) rows)) t = Some (put_row (insert_values row) rows)"
      by simp
    moreover have "\<forall>r\<in>set sdf. rej (insert_values r) = None"
      using Cons.prems(2) by simp
    ultimately have "insert_each rej t sdf (ks(t \<mapsto> put_row (insert_values row) rows)) =
        ((ks(t \<mapsto> put_row (insert_values row) rows))(t \<mapsto> fold (\<lambda>row. put_row (insert_values row)) sdf (put_row (insert_values row) rows)), Inr ())"
      by (rule Cons.IH)
    then show ?thesis by (simp only: fun_upd_upd)
  qed
  show ?case by (simp only: insert_each.simps step rest prod.case sum.case fold_simps)
qed

lemma insert_each_rejected:
  assumes "ks t = Some rows"
    and "\<forall>row\<in>set pre. rej (insert_values row) = None"
    and "rej (insert_values bad) = Some e"
  shows "insert_each rej t (pre @ bad # post) ks = (ks(t \<mapsto> fold (\<lambda>row. put_row (insert_values row)) pre rows), Inl e)"
  using assms(1,2)
proof (induction pre arbitrary: ks rows)
  case Nil
  have "session_execute rej (insert_query t (insert_values bad)) ks = (ks, Inl e)"
    using Nil(1) assms(3) by (rule insert_rejected)
  moreover have "ks(t \<mapsto> rows) = ks"
    using Nil(1) by (rule fun_upd_idem)
  ultimately show ?case by simp
next
  case (Cons row pre)
  from Cons.prems have ok: "rej (insert_values row) = None" by simp
  have step: "session_execute rej (insert_query t (insert_values row)) ks =
                (ks(t \<mapsto> put_row (insert_values row) rows), Inr ())"
    using Cons.prems(1) ok by (rule insert_accepted)
  have rest: "insert_each rej t (pre @ bad # post) (ks(t \<mapsto> put_row (insert_values row) rows)) =
                (ks(t \<mapsto> fold (\<lambda>row. put_row (insert_values row)) pre (put_row (insert_values row) rows)), Inl e)"
  proof -
    have "(ks(t \<mapsto> put_row (insert_values row) rows)) t = Some (put_row (insert_values row) rows)"
      by simp
    moreover have "\<forall>r\<in>set pre. rej (insert_values r) = None"
      using Cons.prems(2) by simp
    ultimately have "insert_each rej t (pre @ bad # post) (ks(t \<mapsto> put_row (insert_values row) rows)) =
        ((ks(t \<mapsto> put_row (insert_values row) rows))(t \<mapsto> fold (\<lambda>row. put_row (insert_values row)) pre (put_row (insert_values row) rows)), Inl e)"
      by (rule Cons.IH)
    then show ?thesis by (simp only: fun_upd_upd)
  qed
  show ?case by (simp only: append_Cons insert_each.simps step rest prod.case sum.case fold_simps)
qed

text \<open>
  C4, as the code has it. The loop of \<^verbatim>\<open>save_to_cassandra\<close> has no handler around a
  row's write: when the store refuses a row, the rows before it in the batch stay
  written, the refused row and every row after it are not written, and the exception
  leaves \<^verbatim>\<open>save_to_cassandra\<close>. The table holds the rows it held before with those
  of \<open>pre\<close> put on top, and nothing of \<open>bad\<close> or \<open>post\<close>.
\<close>

theorem save_to_cassandra_stops_at_first_failure:
  assumes c: "connect env ks = None"
    and ok: "\<forall>row\<in>set pre. rejects env (insert_values row) = None"
    and bad: "rejects env (insert_values bad) = Some e"
  shows "save_to_cassandra env (pre @ bad # post) ks t w =
           (w\<lparr>db := (db w)(t \<mapsto> fold (\<lambda>row. put_row (insert_values row)) pre
                              (case db w t of None \<Rightarrow> Map.empty | Some rows \<Rightarrow> rows))\<rparr>,
            Inl e)"
proof (cases "db w t")
  case None
  have created: "session_execute (rejects env) (create_table_query t) (db w) =
      ((db w)(t \<mapsto> Map.empty), Inr ())"
    using None by (simp add: create_table_query_def)
  have "((db w)(t \<mapsto> Map.empty)) t = Some Map.empty"
    by simp
  then have "insert_each (rejects env) t (pre @ bad # post) ((db w)(t \<mapsto> Map.empty)) =
      (((db w)(t \<mapsto> Map.empty))(t \<mapsto> fold (\<lambda>row. put_row (insert_values row)) pre Map.empty), Inl e)"
    using ok bad by (rule insert_each_rejected)
  then have "insert_each (rejects env) t (pre @ bad # post) ((db w)(t \<mapsto> Map.empty)) =
      ((db w)(t \<mapsto> fold (\<lambda>row. put_row (insert_values row)) pre Map.empty), Inl e)"
    by (simp only: fun_upd_upd)
  with c created None show ?thesis
    by (simp only: save_to_cassandra_def option.case prod.case sum.case)
next
  case (Some rows)
  have created: "session_execute (rejects env) (create_table_query t) (db w) = (db w, Inr ())"
    using Some by (simp add: create_table_query_def)
  have "insert_each (rejects env) t (pre @ bad # post) (db w) =
      ((db w)(t \<mapsto> fold (\<lambda>row. put_row (insert_values row)) pre rows), Inl e)"
    using Some ok bad by (rule insert_each_rejected)
  with c created Some show ?thesis
    by (simp only: save_to_cassandra_def option.case prod.case sum.case)
qed

text \<open>
  C9. The create-table step is \<^verbatim>\<open>CREATE TABLE IF NOT EXISTS\<close>: it returns without an
  exception, the keyspace then has the table's name and the names it had (a name
  is there once: the keyspace is a map), a table that was there is left as it was
  with its rows, and a second execution returns without an exception and changes
  nothing.
\<close>

theorem create_table_idempotent:
  assumes "session_execute rej (create_table_query t) ks = (ks1, res1)"
  shows "res1 = Inr () \<and>
         dom ks1 = insert t (dom ks) \<and>
         (\<forall>rows. ks t = Some rows \<longrightarrow> ks1 = ks) \<and>
         session_execute rej (create_table_query t) ks1 = (ks1, Inr ())"
  using assms
  by (cases "ks t") (auto simp: create_table_query_def)

lemma three_rows_values:
  "insert_values row_acme =
     (Some 1, Some ''ACME'', Some ''Profit up'', Some ''Record quarter'',
      Some 0.8, Some 0.4, Some 0.6, ''positive'')"
  "insert_values row_null_company =
     (Some 2, None, Some ''Recall'', Some ''Plant closed'',
      Some (- 0.5), Some (- 0.3), Some (- 0.4), ''negative'')"
  "insert_values row_initech =
     (Some 3, Some ''INITECH'', Some ''Meeting'', Some ''Agenda'',
      Some 0, Some 0, Some 0, ''neutral'')"
  by (simp_all add: row_acme_def row_null_company_def row_initech_def insert_values_def
      with_columns_def news_def overall_expr_simps label_expr_Some)

lemma three_rows_rejects:
  "null_key_rejects (insert_values row_acme) = None"
  "null_key_rejects (insert_values row_null_company) =
     Some (Exception ''Invalid null value in condition for column'')"
  "null_key_rejects (insert_values row_initech) = None"
  by (simp_all add: three_rows_values null_key_rejects_def primary_key_def)

text \<open>
  A batch of three rows whose second row has a null company, saved into an empty
  keyspace of a store that refuses a null in the primary key.
\<close>

theorem save_to_cassandra_stops_at_first_failure_witness:
  "connect local_cluster ''stock_analysis'' = None \<and>
   rejects local_cluster (insert_values row_acme) = None \<and>
   rejects local_cluster (insert_values row_null_company) =
     Some (Exception ''Invalid null value in condition for column'') \<and>
   save_to_cassandra local_cluster ([row_acme] @ row_null_company # [row_initech])
       ''stock_analysis'' ''news_sentiment'' empty_world =
     (\<lparr>stdout = [], db = [''news_sentiment'' \<mapsto> put_row (insert_values row_acme) Map.empty]\<rparr>,
      Inl (Exception ''Invalid null value in condition for column''))"
proof -
  have c: "connect local_cluster ''stock_analysis'' = None"
    by (simp add: local_cluster_def)
  have r1: "rejects local_cluster (insert_values row_acme) = None"
    by (simp add: local_cluster_def three_rows_rejects)
  have bad: "rejects local_cluster (insert_values row_null_company) =
      Some (Exception ''Invalid null value in condition for column'')"
    by (simp add: local_cluster_def three_rows_rejects)
  have ok: "\<forall>row\<in>set [row_acme]. rejects local_cluster (insert_values row) = None"
    using r1 by simp
  from save_to_cassandra_stops_at_first_failure
    [where t = "''news_sentiment''" and post = "[row_initech]" and w = empty_world, OF c ok bad]
  have "save_to_cassandra local_cluster ([row_acme] @ row_null_company # [row_initech])
       ''stock_analysis'' ''news_sentiment'' empty_world =
     (\<lparr>stdout = [], db = [''news_sentiment'' \<mapsto> put_row (insert_values row_acme) Map.empty]\<rparr>,
      Inl (Exception ''Invalid null value in condition for column''))"
    by (simp add: empty_world_def)
  with c r1 bad show ?thesis by simp
qed

lemma insert_each_three_rows:
  "insert_each null_key_rejects ''news_sentiment'' three_rows [''news_sentiment'' \<mapsto> Map.empty] =
     ([''news_sentiment'' \<mapsto> put_row (insert_values row_acme) Map.empty],
      Inl (Exception ''Invalid null value in condition for column''))"
  by (simp add: three_rows_def insert_query_def three_rows_rejects)

text \<open>
  The same batch of three rows: the third row is one the store accepts, and it is
  not in the table after the call, which has raised; only the first row is.
\<close>

theorem row_failure_aborts_batch_counterexample:
  "snd (save_to_cassandra local_cluster three_rows ''stock_analysis'' ''news_sentiment'' empty_world) =
     Inl (Exception ''Invalid null value in condition for column'') \<and>
   rejects local_cluster (insert_values row_initech) = None \<and>
   select_row
     (db (fst (save_to_cassandra local_cluster three_rows ''stock_analysis'' ''news_sentiment'' empty_world)))
     ''news_sentiment'' (Some 1, Some ''ACME'') = Some (insert_values row_acme) \<and>
   select_row
     (db (fst (save_to_cassandra local_cluster three_rows ''stock_analysis'' ''news_sentiment'' empty_world)))
     ''news_sentiment'' (Some 3, Some ''INITECH'') = None"
proof -
  have "save_to_cassandra local_cluster three_rows ''stock_analysis'' ''news_sentiment'' empty_world =
     (\<lparr>stdout = [],
       db = [''news_sentiment'' \<mapsto> put_row (insert_values row_acme) Map.empty]\<rparr>,
      Inl (Exception ''Invalid null value in condition for column''))"
    by (simp add: save_to_cassandra_def local_cluster_def empty_world_def create_table_query_def
        insert_each_three_rows)
  moreover have "rejects local_cluster (insert_values row_initech) = None"
    by (simp add: local_cluster_def three_rows_rejects)
  moreover have "primary_key (insert_values row_acme) = (Some 1, Some ''ACME'')"
    by (simp add: three_rows_values primary_key_def)
  ultimately show ?thesis
    by (simp add: select_row_def put_row_def)
qed

text \<open>
  The step run on an empty keyspace, and again on the keyspace it leaves.
\<close>

theorem create_table_idempotent_witness:
  "session_execute null_key_rejects (create_table_query ''news_sentiment'') Map.empty =
     ([''news_sentiment'' \<mapsto> Map.empty], Inr ()) \<and>
   session_execute null_key_rejects (create_table_query ''news_sentiment'')
       [''news_sentiment'' \<mapsto> Map.empty] =
     ([''news_sentiment'' \<mapsto> Map.empty], Inr ())"
proof -
  have first: "session_execute null_key_rejects (create_table_query ''news_sentiment'') Map.empty =
     ([''news_sentiment'' \<mapsto> Map.empty], Inr ())"
    by (simp add: create_table_query_def)
  from create_table_idempotent [OF first] first show ?thesis by simp
qed

lemma process_batch_cases:
  "process_batch env df epoch_id w =
     (case process_batch_body env df epoch_id w of
        (w', Inr u) \<Rightarrow> (w', Inr ())
      | (w', Inl (Exception msg)) \<Rightarrow> (print_line (ErrorProcessing epoch_id msg) w', Inr ()))"
  by (simp add: process_batch_def split: prod.splits sum.splits py_exception.splits)

lemma process_batch_returns: "snd (process_batch env df epoch_id w) = Inr ()"
  by (simp add: process_batch_cases split: prod.splits sum.splits py_exception.splits)

lemma foreach_batch_returns:
  "snd (foreach_batch (process_batch env) dfs epoch_id w) = Inr ()"
proof (induction dfs arbitrary: epoch_id w)
  case Nil
  show ?case by simp
next
  case (Cons df dfs)
  obtain w' where "process_batch env df epoch_id w = (w', Inr ())"
    using process_batch_returns [of env df epoch_id w]
    by (cases "process_batch env df epoch_id w") simp
  then show ?case using Cons.IH by simp
qed

text \<open>
  C5. \<^verbatim>\<open>process_batch\<close> never raises: an exception of any step of its body is
  caught, a line with the batch's \<^verbatim>\<open>epoch_id\<close> and the exception's message is printed
  after what the body had printed, and the handler returns. So the streaming query
  does not stop at this batch: it goes on to the next batches, with the next epoch
  id, and returns without an exception.
\<close>

theorem process_batch_contains_errors:
  "snd (process_batch env df epoch_id w) = Inr () \<and>
   (\<forall>w' msg. process_batch_body env df epoch_id w = (w', Inl (Exception msg)) \<longrightarrow>
      process_batch env df epoch_id w = (print_line (ErrorProcessing epoch_id msg) w', Inr ())) \<and>
   snd (foreach_batch (process_batch env) (df # dfs) epoch_id w) = Inr () \<and>
   foreach_batch (process_batch env) (df # dfs) epoch_id w =
     foreach_batch (process_batch env) dfs (epoch_id + 1) (fst (process_batch env df epoch_id w))"
proof (intro conjI allI impI)
  show "snd (process_batch env df epoch_id w) = Inr ()"
    by (rule process_batch_returns)
  show "snd (foreach_batch (process_batch env) (df # dfs) epoch_id w) = Inr ()"
    by (rule foreach_batch_returns)
  show "foreach_batch (process_batch env) (df # dfs) epoch_id w =
     foreach_batch (process_batch env) dfs (epoch_id + 1) (fst (process_batch env df epoch_id w))"
    using process_batch_returns [of env df epoch_id w]
    by (cases "process_batch env df epoch_id w") simp
next
  fix w' msg
  assume "process_batch_body env df epoch_id w = (w', Inl (Exception msg))"
  then show "process_batch env df epoch_id w =
      (print_line (ErrorProcessing epoch_id msg) w', Inr ())"
    by (simp add: process_batch_def)
qed

lemma unscored_body:
  "process_batch_body local_cluster unscored_df 7 empty_world =
     (\<lparr>stdout = [Processing 7, CompanyHeader], db = Map.empty\<rparr>,
      Inl (Exception ''analyzer failed''))"
  by (simp add: process_batch_body_def local_cluster_def unscored_df_def empty_world_def
      print_line_def acme_scores_def scoring_defs)

lemma save_accepted:
  assumes c: "connect env ks = None"
    and ok: "\<forall>row\<in>set sdf. rejects env (insert_values row) = None"
  shows "\<exists>w'. save_to_cassandra env sdf ks t w = (print_line (Saved t ks) w', Inr ())"
proof (cases "db w t")
  case None
  have created: "session_execute (rejects env) (create_table_query t) (db w) =
      ((db w)(t \<mapsto> Map.empty), Inr ())"
    using None by (simp add: create_table_query_def)
  have "((db w)(t \<mapsto> Map.empty)) t = Some Map.empty"
    by simp
  then have "insert_each (rejects env) t sdf ((db w)(t \<mapsto> Map.empty)) =
      (((db w)(t \<mapsto> Map.empty))(t \<mapsto> fold (\<lambda>row. put_row (insert_values row)) sdf Map.empty), Inr ())"
    using ok by (rule insert_each_accepted)
  with c created show ?thesis
    by (simp only: save_to_cassandra_def option.case prod.case sum.case) blast
next
  case (Some rows)
  have created: "session_execute (rejects env) (create_table_query t) (db w) = (db w, Inr ())"
    using Some by (simp add: create_table_query_def)
  have "insert_each (rejects env) t sdf (db w) =
      ((db w)(t \<mapsto> fold (\<lambda>row. put_row (insert_values row)) sdf rows), Inr ())"
    using Some ok by (rule insert_each_accepted)
  with c created show ?thesis
    by (simp only: save_to_cassandra_def option.case prod.case sum.case) blast
qed

lemma acme_batch:
  "snd (process_batch local_cluster [acme_news] 8 w) = Inr () \<and>
   last (stdout (fst (process_batch local_cluster [acme_news] 8 w))) =
     Saved ''news_sentiment'' ''stock_analysis''"
proof -
  have "\<exists>r. sentiment_df (compound_score local_cluster) [acme_news] = Inr [r] \<and>
          fetch_timestamp r = Some 1 \<and> company r = Some ''ACME''"
    by (simp add: local_cluster_def acme_scores_def acme_news_def scoring_defs with_columns_def)
  then obtain r where s: "sentiment_df (compound_score local_cluster) [acme_news] = Inr [r]"
    and k: "fetch_timestamp r = Some 1" "company r = Some ''ACME''"
    by blast
  have c: "connect local_cluster ''stock_analysis'' = None"
    by (simp add: local_cluster_def)
  have ok: "\<forall>row\<in>set [r]. rejects local_cluster (insert_values row) = None"
    using k by (simp add: local_cluster_def null_key_rejects_def primary_key_def insert_values_def)
  have ne: "[acme_news] \<noteq> []"
    by simp
  obtain w' where
    "process_batch_body local_cluster [acme_news] 8 w =
       (print_line (Saved ''news_sentiment'' ''stock_analysis'') w', Inr ())"
    using save_accepted [OF c ok] 
    by (simp only: process_batch_body_def ne if_False s sum.case) blast
  then show ?thesis
    by (simp add: process_batch_def print_line_def)
qed

text \<open>
  A batch whose title the analyzer cannot score, followed by a batch it can: the
  first prints its error line with epoch 7, the second is processed and saved.
\<close>

theorem process_batch_contains_errors_witness:
  "process_batch_body local_cluster unscored_df 7 empty_world =
     (\<lparr>stdout = [Processing 7, CompanyHeader], db = Map.empty\<rparr>,
      Inl (Exception ''analyzer failed'')) \<and>
   process_batch local_cluster unscored_df 7 empty_world =
     (\<lparr>stdout = [Processing 7, CompanyHeader, ErrorProcessing 7 ''analyzer failed''],
       db = Map.empty\<rparr>, Inr ()) \<and>
   snd (foreach_batch (process_batch local_cluster) [unscored_df, [acme_news]] 7 empty_world) =
     Inr () \<and>
   last (stdout (fst (foreach_batch (process_batch local_cluster) [unscored_df, [acme_news]] 7
     empty_world))) = Saved ''news_sentiment'' ''stock_analysis''"
proof -
  note inst = process_batch_contains_errors
    [of local_cluster unscored_df 7 empty_world "[[acme_news]]"]
  from inst unscored_body
  have failed: "process_batch local_cluster unscored_df 7 empty_world =
     (\<lparr>stdout = [Processing 7, CompanyHeader, ErrorProcessing 7 ''analyzer failed''],
       db = Map.empty\<rparr>, Inr ())"
    by (simp add: print_line_def)
  from inst
  have "foreach_batch (process_batch local_cluster) [unscored_df, [acme_news]] 7 empty_world =
     foreach_batch (process_batch local_cluster) [[acme_news]] 8
       (fst (process_batch local_cluster unscored_df 7 empty_world))"
    by simp
  also have "\<dots> = (fst (process_batch local_cluster [acme_news] 8
       (fst (process_batch local_cluster unscored_df 7 empty_world))), Inr ())"
    using acme_batch [of "fst (process_batch local_cluster unscored_df 7 empty_world)"]
    by (cases "process_batch local_cluster [acme_news] 8
       (fst (process_batch local_cluster unscored_df 7 empty_world))") simp
  finally have "last (stdout (fst (foreach_batch (process_batch local_cluster)
      [unscored_df, [acme_news]] 7 empty_world))) = Saved ''news_sentiment'' ''stock_analysis''"
    and "snd (foreach_batch (process_batch local_cluster) [unscored_df, [acme_news]] 7
      empty_world) = Inr ()"
    using acme_batch [of "fst (process_batch local_cluster unscored_df 7 empty_world)"]
    by simp_all
  with unscored_body failed show ?thesis by simp
qed

end
